theory Spec2Isabelle
  imports Complex_Main "HOL-Library.Word" "HOL-Library.Multiset"
    "HOL-Library.Char_ord" "HOL-Library.List_Lexorder"
begin

unbundle bit_operations_syntax

section \<open>Shared data model of the LSM engine (leveldb/db/db\_impl.cc)\<close>

text \<open>
  \<open>leveldb::Status\<close>: either OK or an error code with a message. Only the codes that the
  modelled functions construct or test are listed.
\<close>

datatype Code = kNotFound | kCorruption | kNotSupported | kIOError | kIOPermissionDenied

datatype Status = OK | Err Code string

definition ok :: "Status \<Rightarrow> bool" where
  "ok s = (s = OK)"

fun IsIOPermissionDenied :: "Status \<Rightarrow> bool" where
  "IsIOPermissionDenied (Err kIOPermissionDenied m) = True"
| "IsIOPermissionDenied s = False"

type_synonym SequenceNumber = "64 word"

text \<open>
  An internal key as \<open>ParsedInternalKey\<close> has it (user key, sequence, type); a table entry
  is an internal key with its value.
\<close>

datatype ValueType = kTypeDeletion | kTypeValue

record ParsedInternalKey =
  ik_user_key :: string
  ik_sequence :: SequenceNumber
  ik_type :: ValueType

type_synonym Entry = "ParsedInternalKey \<times> string"

text \<open>
  The memtable class itself is not part of the sources at hand; the record holds exactly the
  observers and mutators that \<open>DBImpl\<close> calls on it: \<open>BeingFlushed/SetBeingFlushed\<close>,
  \<open>Ref/Unref\<close>, \<open>ApproximateMemoryUsage\<close>, \<open>GetLastSequence\<close>,
  \<open>GetSnapshot/ReleaseSnapshot\<close>, and the entries of the table, in the order of its
  iterator, which \<open>Get\<close> reads.
\<close>

record MemTable =
  being_flushed :: bool
  refs :: int
  ApproximateMemoryUsage :: nat
  mt_last_sequence :: SequenceNumber
  mt_snapshots :: "SequenceNumber multiset"
  mt_entries :: "Entry list"

text \<open>\<open>FileMetaData\<close> and \<open>VersionEdit\<close>, as far as \<open>DBImpl\<close> fills them in.\<close>

record FileMetaData =
  f_number :: "64 word"
  f_file_size :: "64 word"
  f_smallest :: string
  f_largest :: string

record VersionEdit =
  e_new_files :: "(int \<times> FileMetaData) list"
  e_prev_log_number :: "64 word option"
  e_log_number :: "64 word option"
  e_last_sequence :: "SequenceNumber option"


text \<open>
  \<open>VersionSet\<close>: the file-number counter behind \<open>NewFileNumber()\<close>, the level-0 file
  count behind \<open>NumLevelFiles(0)\<close>, the edits that \<open>LogAndApply\<close> has installed,
  \<open>LastSequence()\<close>, and the tables of \<open>current()\<close> in the order in which a read probes
  them: the level-0 files, then level 1, level 2 and so on, each with its entries in the order
  of its iterator.
\<close>

record VersionSet =
  next_file_number :: "64 word"
  NumLevelFiles0 :: int
  manifest :: "VersionEdit list"
  LastSequence :: SequenceNumber
  current :: "Entry list list"

text \<open>
  \<open>DBImpl::CompactionTask\<close> and \<open>DBImpl::ManualCompaction\<close>. Scores are C++ doubles; only
  their order matters to the scheduler, so they are modelled as reals. Field names carry a
  prefix (\<open>f_\<close>, \<open>e_\<close>, \<open>t_\<close>) where the C++ name is also used for variables.
\<close>

record CompactionTask =
  t_id :: int
  t_score :: real
  t_timeout :: "64 word"

datatype ManualCompactState = kManualCompactIdle | kManualCompactConflict

record ManualCompaction =
  being_sched :: bool
  compaction_conflict :: ManualCompactState

text \<open>
  What \<open>Env::Schedule\<close> and \<open>Env::ReSchedule\<close> were asked to do, in call order; the thread pool
  hands out task ids from a counter.
\<close>

datatype SchedCall = Schedule int real "64 word" | ReSchedule int real "64 word"

text \<open>
  The fields of \<open>DBImpl\<close> that the modelled member functions read or write (the trailing
  underscore of the member names is dropped). \<open>mem_\<close> and \<open>imm_\<close> are pointers, hence
  options. \<open>snapshots_\<close> is a \<open>std::multiset<uint64_t>\<close>, \<open>pending_outputs_\<close> a
  \<open>std::set<uint64_t>\<close>, \<open>rollbacks_\<close> a \<open>std::map<uint64_t, uint64_t>\<close> kept as its list
  of pairs. \<open>writers\<close> is the length of the queue \<open>writers_\<close>. \<open>has_imm_\<close> mirrors
  \<open>imm_\<close> and is not kept separately; \<open>stats_\<close> (timing statistics) is left out.
\<close>

record DBImpl =
  use_memtable_on_leveldb :: bool
  memtable_shard_num :: int
  drop_base_level_del_in_compaction :: bool
  write_buffer_size :: nat
  max_background_compactions :: nat
  mem :: "MemTable option"
  imm :: "MemTable option"
  snapshots :: "SequenceNumber multiset"
  rollbacks :: "(SequenceNumber \<times> SequenceNumber) list"
  bg_error :: Status
  consecutive_compaction_errors :: int
  shutting_down :: bool
  bg_compaction_tasks :: "CompactionTask list"
  manual_compaction :: "ManualCompaction option"
  pending_outputs :: "64 word set"
  logfile_number :: "64 word"
  bound_log_size :: "64 word"
  versions :: VersionSet
  env_next_id :: int
  env_calls :: "SchedCall list"
  writers :: nat

text \<open>
  Declarations that \<open>DBImpl\<close> uses and that are not among the sources: constants of
  \<open>dbformat.h\<close>, and the functions \<open>BuildFullFileNumber\<close>, \<open>BuildTable\<close>,
  \<open>Version::PickLevelForMemTableOutput\<close>, \<open>VersionSet::LogAndApply\<close>,
  \<open>VersionSet::GetCompactionScores\<close>, and the memtables that the constructors of
  \<open>BaseMemTable\<close>, \<open>ShardedMemTable\<close> (over a base table or over LevelDB) and
  \<open>MemTableOnLevelDB\<close> build. They are parameters of the
  model; every theorem holds for all values of them. \<open>BuildTable\<close> is given the memtable, the
  file number and the smallest snapshot, and yields the status together with the three fields
  of \<open>meta\<close> it fills in (file size, smallest and largest key). \<open>GetCompactionScores\<close>
  receives the score vector built so far and yields the vector it leaves behind.
\<close>

record Absent =
  kMaxSequenceNumber :: SequenceNumber
  kL0_SlowdownWritesTrigger :: int
  kL0_StopWritesTrigger :: int
  kDumpMemTableScore :: real
  kManualCompactScore :: real
  BuildFullFileNumber :: "64 word \<Rightarrow> 64 word"
  BuildTable :: "MemTable \<Rightarrow> 64 word \<Rightarrow> SequenceNumber \<Rightarrow> Status \<times> 64 word \<times> string \<times> string"
  PickLevelForMemTableOutput :: "VersionSet \<Rightarrow> string \<Rightarrow> string \<Rightarrow> int"
  LogAndApply :: "VersionEdit \<Rightarrow> VersionSet \<Rightarrow> Status \<times> VersionSet"
  GetCompactionScores :: "VersionSet \<Rightarrow> (real \<times> 64 word) list \<Rightarrow> (real \<times> 64 word) list"
  BaseMemTable :: MemTable
  ShardedMemTable :: "bool \<Rightarrow> MemTable"
  MemTableOnLevelDB :: MemTable

section \<open>Snapshots\<close>

text \<open>
  Modelled from the spec: \<open>MemTable::GetSnapshot\<close> and \<open>MemTable::ReleaseSnapshot\<close> are not
  among the sources; the spec says memtable snapshots pin the in-memory structure, which is
  recorded here as a multiset of pinned sequence numbers.
\<close>

definition MemTable_GetSnapshot :: "SequenceNumber \<Rightarrow> MemTable \<Rightarrow> MemTable" where
  "MemTable_GetSnapshot seq m = m\<lparr>mt_snapshots := add_mset seq (mt_snapshots m)\<rparr>"

definition MemTable_ReleaseSnapshot :: "SequenceNumber \<Rightarrow> MemTable \<Rightarrow> MemTable" where
  "MemTable_ReleaseSnapshot seq m = m\<lparr>mt_snapshots := mt_snapshots m - {#seq#}\<rparr>"

text \<open>
  \<open>DBImpl::NewMemTable\<close>: a base or sharded table, or, with \<open>use_memtable_on_leveldb\<close>, a
  table over LevelDB in which every snapshot of \<open>snapshots_\<close> is taken, in the order of the
  multiset.
\<close>

definition NewMemTable :: "Absent \<Rightarrow> DBImpl \<Rightarrow> MemTable" where
  "NewMemTable A db =
     (if \<not> use_memtable_on_leveldb db
      then (if 1 < memtable_shard_num db then ShardedMemTable A False else BaseMemTable A)
      else fold MemTable_GetSnapshot (sorted_list_of_multiset (snapshots db))
             (if 1 < memtable_shard_num db then ShardedMemTable A True
              else MemTableOnLevelDB A))"


text \<open>
  \<open>DBImpl::ReleaseSnapshot(sequence_number)\<close>: \<open>find\<close> followed by \<open>erase(it)\<close> removes one
  element; \<open>assert(it != snapshots_.end())\<close> is the \<open>None\<close> branch.
\<close>

definition ReleaseSnapshot :: "DBImpl \<Rightarrow> SequenceNumber \<Rightarrow> DBImpl option" where
  "ReleaseSnapshot db sequence_number =
     (let db1 = (if use_memtable_on_leveldb db
                 then db\<lparr>mem := map_option (MemTable_ReleaseSnapshot sequence_number) (mem db),
                         imm := map_option (MemTable_ReleaseSnapshot sequence_number) (imm db)\<rparr>
                 else db)
      in if sequence_number \<in># snapshots db1
         then Some (db1\<lparr>snapshots := snapshots db1 - {#sequence_number#}\<rparr>)
         else None)"



section \<open>Flushing the immutable memtable\<close>




section \<open>Background compaction: scheduling, retry and back-off\<close>


text \<open>\<open>ScoreSortGreater\<close>: smaller timeout first, then larger score.\<close>

definition ScoreSortGreater :: "real \<times> 64 word \<Rightarrow> real \<times> 64 word \<Rightarrow> bool" where
  "ScoreSortGreater i j = (if snd i \<noteq> snd j then snd i < snd j else fst i > fst j)"

text \<open>
  \<open>std::sort\<close> with a comparator, as an insertion sort. Elements that the comparator does not
  separate are equal pairs here, so the result does not depend on the sorting algorithm.
\<close>

fun insert_by :: "('a \<Rightarrow> 'a \<Rightarrow> bool) \<Rightarrow> 'a \<Rightarrow> 'a list \<Rightarrow> 'a list" where
  "insert_by lt x [] = [x]"
| "insert_by lt x (y # ys) = (if lt x y then x # y # ys else y # insert_by lt x ys)"

definition sort_by :: "('a \<Rightarrow> 'a \<Rightarrow> bool) \<Rightarrow> 'a list \<Rightarrow> 'a list" where
  "sort_by lt xs = foldr (insert_by lt) xs []"

text \<open>
  The scheduling loop of \<open>MaybeScheduleCompaction\<close>, \<open>for (i = 0; i < qlen; i++)\<close>; the first
  argument counts the iterations that remain. Both \<open>assert\<close>s (a score above 1 has timeout 0)
  give \<open>None\<close>. \<open>Env::Schedule\<close> returns the new task id, taken from \<open>env_next_id\<close>.
\<close>

fun schedule_loop :: "nat \<Rightarrow> nat \<Rightarrow> (real \<times> 64 word) list \<Rightarrow> DBImpl \<Rightarrow> DBImpl option" where
  "schedule_loop 0 i scores db = Some db"
| "schedule_loop (Suc k) i scores db =
     (if length (bg_compaction_tasks db) < max_background_compactions db
      then
        (if i < length (bg_compaction_tasks db)
         then
           (let task = bg_compaction_tasks db ! i in
            if ScoreSortGreater (scores ! i) (t_score task, t_timeout task)
            then
              (let task' = task\<lparr>t_score := fst (scores ! i), t_timeout := snd (scores ! i)\<rparr>;
                   db' = db\<lparr>bg_compaction_tasks := (bg_compaction_tasks db)[i := task'],
                            env_calls := env_calls db
                               @ [ReSchedule (t_id task') (t_score task') (t_timeout task')]\<rparr>
               in if fst (scores ! i) \<le> 1 \<or> snd (scores ! i) = 0
                  then schedule_loop k (i + 1) scores db' else None)
            else schedule_loop k (i + 1) scores db)
         else
           (let task = \<lparr>t_id = env_next_id db, t_score = fst (scores ! i),
                        t_timeout = snd (scores ! i)\<rparr>;
                db' = db\<lparr>bg_compaction_tasks := bg_compaction_tasks db @ [task],
                         env_next_id := env_next_id db + 1,
                         env_calls := env_calls db
                            @ [Schedule (t_id task) (t_score task) (t_timeout task)]\<rparr>
            in if fst (scores ! i) \<le> 1 \<or> snd (scores ! i) = 0
               then schedule_loop k (i + 1) scores db' else None))
      else schedule_loop k (i + 1) scores db)"

text \<open>\<open>DBImpl::MaybeScheduleCompaction\<close>.\<close>

definition MaybeScheduleCompaction :: "Absent \<Rightarrow> DBImpl \<Rightarrow> DBImpl option" where
  "MaybeScheduleCompaction A db =
     (if shutting_down db then Some db
      else if IsIOPermissionDenied (bg_error db) then Some db
      else
        let s0 = (case imm db of
                    Some m \<Rightarrow> if \<not> being_flushed m then [(kDumpMemTableScore A, 0)] else []
                  | None \<Rightarrow> []);
            s1 = s0 @ (case manual_compaction db of
                         Some mc \<Rightarrow>
                           if \<not> being_sched mc \<and> compaction_conflict mc \<noteq> kManualCompactConflict
                           then [(kManualCompactScore A, 0)] else []
                       | None \<Rightarrow> []);
            s2 = GetCompactionScores A (versions db) s1;
            qlen = max (length s2) (length (bg_compaction_tasks db));
            s3 = s2 @ map (\<lambda>t. (t_score t, t_timeout t)) (bg_compaction_tasks db);
            scores = sort_by ScoreSortGreater s3
        in schedule_loop qlen 0 scores db)"






text \<open>\<open>MemTable::Ref\<close> and \<open>MemTable::Unref\<close> count references.\<close>

definition MemTable_Ref :: "MemTable \<Rightarrow> MemTable" where
  "MemTable_Ref m = m\<lparr>refs := refs m + 1\<rparr>"

definition MemTable_Unref :: "MemTable \<Rightarrow> MemTable" where
  "MemTable_Unref m = m\<lparr>refs := refs m - 1\<rparr>"


section \<open>Write stalls: \<open>DBImpl::MakeRoomForWrite\<close>\<close>





section \<open>The compaction walk: \<open>DBImpl::HandleCompactionWork\<close>\<close>

text \<open>
  Modelled from the spec: \<open>RollbackDrop\<close> is declared in a header that is not among the
  sources. The spec gives the rollback predicate: an entry is dropped if
  \<open>rollbacks[snapshot] \<ge> sequence > snapshot\<close> for some recorded rollback. The
  \<open>std::map\<close> is a list of (snapshot, rollback point) pairs.
\<close>

definition RollbackDrop :: "SequenceNumber \<Rightarrow> (SequenceNumber \<times> SequenceNumber) list \<Rightarrow> bool" where
  "RollbackDrop seq rbs = list_ex (\<lambda>(snapshot, point). seq \<le> point \<and> snapshot < seq) rbs"

text \<open>
  The pluggable \<open>CompactStrategy\<close>: \<open>Drop(user_key, sequence, lower_bound)\<close>, and
  \<open>MergeAtomicOPs(input, &merged_value, &merged_key)\<close>, which reads on from the current entry
  and, when it merges, yields the merged key and value and has advanced the iterator past
  the current entry and a number of further ones. \<open>CheckTag\<close> only feeds statistics.
\<close>

record CompactStrategy =
  Drop :: "string \<Rightarrow> SequenceNumber \<Rightarrow> string \<Rightarrow> bool"
  MergeAtomicOPs :: "(string \<times> string) list \<Rightarrow> (string \<times> string \<times> nat) option"

text \<open>
  What the walk takes from the \<open>Compaction\<close> object, the comparator and the key format, none
  of which is among the sources: \<open>ParseInternalKey\<close> (given the key and the previous content
  of \<open>ikey\<close>, it yields success and the new content), \<open>IsBaseLevelForKey\<close>,
  \<open>drop_lower_bound\<close>, and whether a key has reached \<open>sub_compact_end_\<close>.
\<close>

record CompactionState =
  smallest_snapshot :: SequenceNumber
  ParseInternalKey :: "string \<Rightarrow> ParsedInternalKey \<Rightarrow> bool \<times> ParsedInternalKey"
  IsBaseLevelForKey :: "string \<Rightarrow> bool"
  drop_lower_bound :: string
  reached_end_key :: "string \<Rightarrow> bool"

text \<open>
  The local variables of the loop: \<open>ikey\<close>, \<open>current_user_key\<close>, \<open>has_current_user_key\<close>,
  \<open>last_sequence_for_key\<close>.
\<close>

record WalkState =
  ikey :: ParsedInternalKey
  current_user_key :: string
  has_current_user_key :: bool
  last_sequence_for_key :: SequenceNumber

text \<open>
  One pass through the part of the loop body headed \<open>Handle key/value, add to state, etc.\<close>:
  the new local variables and the value of \<open>drop\<close>. The user comparator is taken to
  separate exactly the unequal keys.
\<close>

definition handle_key ::
  "Absent \<Rightarrow> DBImpl \<Rightarrow> CompactionState \<Rightarrow> CompactStrategy option \<Rightarrow> WalkState \<Rightarrow> string
    \<Rightarrow> WalkState \<times> bool" where
  "handle_key A db cstate compact_strategy w key =
     (let (parsed, ik) = ParseInternalKey cstate key (ikey w) in
      if \<not> parsed
      then (w\<lparr>ikey := ik, current_user_key := [], has_current_user_key := False,
               last_sequence_for_key := kMaxSequenceNumber A\<rparr>, False)
      else
        let w1 = (if \<not> has_current_user_key w \<or> ik_user_key ik \<noteq> current_user_key w
                  then w\<lparr>ikey := ik, current_user_key := ik_user_key ik,
                         has_current_user_key := True,
                         last_sequence_for_key := kMaxSequenceNumber A\<rparr>
                  else w\<lparr>ikey := ik\<rparr>);
            drop_entry =
              (if RollbackDrop (ik_sequence ik) (rollbacks db) then True
               else if last_sequence_for_key w1 \<le> smallest_snapshot cstate
                       \<and> last_sequence_for_key w1 \<noteq> kMaxSequenceNumber A then True
               else if ik_type ik = kTypeDeletion \<and> ik_sequence ik \<le> smallest_snapshot cstate
                       \<and> drop_base_level_del_in_compaction db
                       \<and> IsBaseLevelForKey cstate (ik_user_key ik) then True
               else (case compact_strategy of
                       Some strategy \<Rightarrow>
                         if ik_sequence ik \<le> smallest_snapshot cstate
                         then Drop strategy (ik_user_key ik) (ik_sequence ik)
                                (if drop_base_level_del_in_compaction db
                                 then drop_lower_bound cstate else [])
                         else False
                     | None \<Rightarrow> False))
        in (w1\<lparr>last_sequence_for_key := ik_sequence ik\<rparr>, drop_entry))"

text \<open>
  The loop of \<open>HandleCompactionWork\<close> over the entries that the input iterator yields from
  its start position on; the result is the sequence of key/value pairs given to
  \<open>builder->Add\<close>. The loop stops at \<open>sub_compact_end_\<close>. Cutting the output into files,
  the statistics, the interleaved memtable flush and the shutdown check are left out; they
  do not decide which entries are added.
\<close>

function HandleCompactionWork_loop ::
  "Absent \<Rightarrow> DBImpl \<Rightarrow> CompactionState \<Rightarrow> CompactStrategy option \<Rightarrow> WalkState
    \<Rightarrow> (string \<times> string) list \<Rightarrow> (string \<times> string) list" where
  "HandleCompactionWork_loop A db cstate compact_strategy w [] = []"
| "HandleCompactionWork_loop A db cstate compact_strategy w ((key, val) # rest) =
     (if reached_end_key cstate key then []
      else
        let (w', drop_entry) = handle_key A db cstate compact_strategy w key in
        if drop_entry then HandleCompactionWork_loop A db cstate compact_strategy w' rest
        else
          (case (case compact_strategy of
                   Some strategy \<Rightarrow>
                     if ik_sequence (ikey w') \<le> smallest_snapshot cstate
                     then MergeAtomicOPs strategy ((key, val) # rest) else None
                 | None \<Rightarrow> None) of
             Some (merged_key, merged_value, n) \<Rightarrow>
               (merged_key, merged_value)
                 # HandleCompactionWork_loop A db cstate compact_strategy w' (drop n rest)
           | None \<Rightarrow>
               (key, val) # HandleCompactionWork_loop A db cstate compact_strategy w' rest))"
  by pat_completeness auto
termination
  by (relation "measure (\<lambda>(A, db, cstate, compact_strategy, w, input). length input)") auto

declare HandleCompactionWork_loop.simps [simp del]

text \<open>
  \<open>DBImpl::HandleCompactionWork\<close>: the locals start as \<open>has_current_user_key = false\<close>,
  \<open>last_sequence_for_key = kMaxSequenceNumber\<close>; \<open>ikey\<close> is default-constructed.
\<close>

definition HandleCompactionWork ::
  "Absent \<Rightarrow> DBImpl \<Rightarrow> CompactionState \<Rightarrow> CompactStrategy option \<Rightarrow> (string \<times> string) list
    \<Rightarrow> (string \<times> string) list" where
  "HandleCompactionWork A db cstate compact_strategy input =
     HandleCompactionWork_loop A db cstate compact_strategy
       \<lparr>ikey = \<lparr>ik_user_key = [], ik_sequence = 0, ik_type = kTypeDeletion\<rparr>,
        current_user_key = [], has_current_user_key = False,
        last_sequence_for_key = kMaxSequenceNumber A\<rparr>
       input"




text \<open>
  Modelled from the spec: the internal key comparator is not among the sources; the spec
  orders internal keys by raw key ascending, then sequence descending.
\<close>

definition InternalKeyComparator_less :: "ParsedInternalKey \<Rightarrow> ParsedInternalKey \<Rightarrow> bool" where
  "InternalKeyComparator_less a b =
     (ik_user_key a < ik_user_key b
      \<or> (ik_user_key a = ik_user_key b \<and> ik_sequence b < ik_sequence a))"

text \<open>
  The rule of the walk in the words of the specification, to be compared with the loop: an
  entry of the input \<open>keys\<close> is kept iff no rollback window covers it and either its
  sequence is above \<open>smallest_snapshot\<close>, or it is the first (newest) entry of its user key
  at or below \<open>smallest_snapshot\<close> and is neither a deletion at the base level (with
  \<open>drop_base_level_del_in_compaction\<close>) nor dropped by the strategy.
\<close>

definition first_at_or_below ::
  "SequenceNumber \<Rightarrow> ParsedInternalKey list \<Rightarrow> ParsedInternalKey \<Rightarrow> bool" where
  "first_at_or_below s keys k =
     (ik_sequence k \<le> s
      \<and> \<not> list_ex (\<lambda>k'. ik_user_key k' = ik_user_key k \<and> ik_sequence k' \<le> s
                        \<and> ik_sequence k < ik_sequence k') keys)"

definition strategy_drops ::
  "DBImpl \<Rightarrow> CompactionState \<Rightarrow> CompactStrategy option \<Rightarrow> ParsedInternalKey \<Rightarrow> bool" where
  "strategy_drops db cstate compact_strategy k =
     (case compact_strategy of
        Some strategy \<Rightarrow>
          Drop strategy (ik_user_key k) (ik_sequence k)
            (if drop_base_level_del_in_compaction db then drop_lower_bound cstate else [])
      | None \<Rightarrow> False)"

definition kept_by_rules ::
  "DBImpl \<Rightarrow> CompactionState \<Rightarrow> CompactStrategy option \<Rightarrow> ParsedInternalKey list
    \<Rightarrow> ParsedInternalKey \<Rightarrow> bool" where
  "kept_by_rules db cstate compact_strategy keys k =
     (\<not> RollbackDrop (ik_sequence k) (rollbacks db)
      \<and> (smallest_snapshot cstate < ik_sequence k
          \<or> (first_at_or_below (smallest_snapshot cstate) keys k
              \<and> \<not> (ik_type k = kTypeDeletion \<and> drop_base_level_del_in_compaction db
                     \<and> IsBaseLevelForKey cstate (ik_user_key k))
              \<and> \<not> strategy_drops db cstate compact_strategy k)))"

section \<open>Construction and sample values\<close>

text \<open>
  \<open>ClipToRange(ptr, minvalue, maxvalue)\<close> as \<open>SanitizeOptions\<close> applies it to the
  \<open>size_t\<close> option \<open>write_buffer_size\<close> with \<open>int\<close> bounds: both comparisons are made on
  \<open>static_cast<int>(*ptr)\<close>, the low 32 bits read as a signed number.
\<close>

definition ClipToRange :: "nat \<Rightarrow> int \<Rightarrow> int \<Rightarrow> nat" where
  "ClipToRange v minvalue maxvalue =
     (let v1 = (if maxvalue < sint (word_of_nat v :: 32 word) then nat maxvalue else v)
      in if sint (word_of_nat v1 :: 32 word) < minvalue then nat minvalue else v1)"

text \<open>
  The constructor \<open>DBImpl::DBImpl\<close>: the options pass through \<open>SanitizeOptions\<close>, which
  clips \<open>write_buffer_size\<close> to \<open>[64 << 10, 1 << 30]\<close>; \<open>imm_(NULL)\<close>,
  \<open>logfile_number_(0)\<close>, \<open>bound_log_size_(0)\<close>, \<open>manual_compaction_(NULL)\<close>,
  \<open>consecutive_compaction_errors_(0)\<close>, \<open>shutting_down_(NULL)\<close>, the remaining members
  default-constructed (\<open>DBImpl_init\<close>), and \<open>mem_(NewMemTable())\<close> followed by
  \<open>mem_->Ref()\<close>. The options and the fresh version set are arguments.
\<close>

definition DBImpl_init :: "bool \<Rightarrow> int \<Rightarrow> bool \<Rightarrow> nat \<Rightarrow> nat \<Rightarrow> VersionSet \<Rightarrow> DBImpl" where
  "DBImpl_init use_mol shards drop_del wbs max_bg vs =
     \<lparr>use_memtable_on_leveldb = use_mol, memtable_shard_num = shards,
      drop_base_level_del_in_compaction = drop_del,
      write_buffer_size = ClipToRange wbs (64 * 2 ^ 10) (2 ^ 30),
      max_background_compactions = max_bg,
      mem = None, imm = None, snapshots = {#}, rollbacks = [],
      bg_error = OK, consecutive_compaction_errors = 0, shutting_down = False,
      bg_compaction_tasks = [], manual_compaction = None, pending_outputs = {},
      logfile_number = 0, bound_log_size = 0, versions = vs,
      env_next_id = 0, env_calls = [], writers = 0\<rparr>"

definition DBImpl_ctor ::
  "Absent \<Rightarrow> bool \<Rightarrow> int \<Rightarrow> bool \<Rightarrow> nat \<Rightarrow> nat \<Rightarrow> VersionSet \<Rightarrow> DBImpl" where
  "DBImpl_ctor A use_mol shards drop_del wbs max_bg vs =
     (DBImpl_init use_mol shards drop_del wbs max_bg vs)
       \<lparr>mem := Some (MemTable_Ref
                 (NewMemTable A (DBImpl_init use_mol shards drop_del wbs max_bg vs)))\<rparr>"

text \<open>
  Sample values for the parameters, used to run the model on concrete inputs: the constants
  as stock LevelDB has them, collaborators that always succeed, and an engine built from them.
\<close>

definition sample_memtable :: MemTable where
  "sample_memtable = \<lparr>being_flushed = False, refs = 0, ApproximateMemoryUsage = 0,
     mt_last_sequence = 0, mt_snapshots = {#}, mt_entries = []\<rparr>"

definition sample_versions :: VersionSet where
  "sample_versions = \<lparr>next_file_number = 2, NumLevelFiles0 = 0, manifest = [],
     LastSequence = 0, current = []\<rparr>"

definition sample_absent :: Absent where
  "sample_absent =
     \<lparr>kMaxSequenceNumber = 0xFFFFFFFFFFFFFF,
      kL0_SlowdownWritesTrigger = 8, kL0_StopWritesTrigger = 12,
      kDumpMemTableScore = 2, kManualCompactScore = 1,
      BuildFullFileNumber = (\<lambda>n. n),
      BuildTable = (\<lambda>m n s. (OK, 100, ''a'', ''z'')),
      PickLevelForMemTableOutput = (\<lambda>v lo hi. 0),
      LogAndApply = (\<lambda>e v. (OK, v\<lparr>manifest := manifest v @ [e]\<rparr>)),
      GetCompactionScores = (\<lambda>v scores. scores),
      BaseMemTable = sample_memtable, ShardedMemTable = (\<lambda>on_leveldb. sample_memtable),
      MemTableOnLevelDB = sample_memtable\<rparr>"

definition sample_db :: DBImpl where
  "sample_db = DBImpl_ctor sample_absent False 1 True (4 * 2 ^ 20) 2 sample_versions"

definition sample_imm_db :: DBImpl where
  "sample_imm_db = sample_db\<lparr>imm := Some (sample_memtable\<lparr>refs := 1,
      ApproximateMemoryUsage := 10, mt_last_sequence := 7\<rparr>)\<rparr>"

definition failing_absent :: Absent where
  "failing_absent = sample_absent\<lparr>BuildTable := (\<lambda>m n s. (Err kIOError ''build'', 0, [], []))\<rparr>"

definition snapshot_absent :: Absent where
  "snapshot_absent =
     sample_absent\<lparr>BuildTable := (\<lambda>m n s. (if s = 3 then OK else Err kIOError ''snapshot'',
                                              100, ''a'', ''z''))\<rparr>"

definition denied_absent :: Absent where
  "denied_absent =
     sample_absent\<lparr>BuildTable := (\<lambda>m n s. (Err kIOPermissionDenied ''build'', 0, [], []))\<rparr>"

definition sample_rest :: "DBImpl \<Rightarrow> Status \<times> bool \<times> DBImpl" where
  "sample_rest db = (OK, True, db)"

definition sample_task :: CompactionTask where
  "sample_task = \<lparr>t_id = 0, t_score = 2, t_timeout = 0\<rparr>"

definition sample_bg_db :: DBImpl where
  "sample_bg_db = sample_imm_db\<lparr>bg_compaction_tasks := [sample_task], env_next_id := 1\<rparr>"








text \<open>
  How the locals of the walk relate to the keys already handled \<open>ks\<close>: none yet and no
  current user key, or the current user key and last sequence are those of the last key.
\<close>

definition walk_inv ::
  "Absent \<Rightarrow> ParsedInternalKey list \<Rightarrow> WalkState \<Rightarrow> bool" where
  "walk_inv A ks w =
     (if ks = [] then \<not> has_current_user_key w
      else has_current_user_key w \<and> current_user_key w = ik_user_key (last ks)
           \<and> last_sequence_for_key w = ik_sequence (last ks))"

text \<open>
  A sample key format for running the walk: the user key, then one byte of sequence number,
  then one type byte (0 for a deletion).
\<close>

definition sample_parse :: "string \<Rightarrow> ParsedInternalKey" where
  "sample_parse key =
     \<lparr>ik_user_key = butlast (butlast key),
      ik_sequence = of_nat (of_char (last (butlast key))),
      ik_type = (if last key = CHR 0x00 then kTypeDeletion else kTypeValue)\<rparr>"

definition sample_ParseInternalKey :: "string \<Rightarrow> ParsedInternalKey \<Rightarrow> bool \<times> ParsedInternalKey" where
  "sample_ParseInternalKey key old =
     (if length key < 2 then (False, old) else (True, sample_parse key))"

definition sample_cstate :: CompactionState where
  "sample_cstate =
     \<lparr>smallest_snapshot = 5, ParseInternalKey = sample_ParseInternalKey,
      IsBaseLevelForKey = (\<lambda>k. True), drop_lower_bound = [],
      reached_end_key = (\<lambda>k. False)\<rparr>"

definition sample_input :: "(string \<times> string) list" where
  "sample_input =
     [(''a'' @ [CHR 0x07, CHR 0x01], ''v7''), (''a'' @ [CHR 0x04, CHR 0x01], ''v4''),
      (''a'' @ [CHR 0x02, CHR 0x01], ''v2''), (''b'' @ [CHR 0x03, CHR 0x00], [])]"

section \<open>Persistent-cache garbage collection (tabletnode/tabletnode\_impl.cc)\<close>

text \<open>
  Modelled from the spec: the \<open>PersistentCache\<close> class is not among the sources. The cache is
  the list of its keys (SSTable paths), which is what \<open>GetAllKeys\<close> returns, and
  \<open>ForceEvict(key)\<close> removes the key (the spec: the cache is asked to force-evict by full
  path).
\<close>

type_synonym PersistentCache = "string list"

definition GetAllKeys :: "PersistentCache \<Rightarrow> string list" where
  "GetAllKeys c = c"

definition ForceEvict :: "string \<Rightarrow> PersistentCache \<Rightarrow> PersistentCache" where
  "ForceEvict key c = removeAll key c"

text \<open>
  \<open>SplitString\<close> and the cache's own \<open>GarbageCollect\<close> are not among the sources and are
  parameters.
\<close>

record GcDeps =
  SplitString :: "string \<Rightarrow> string \<Rightarrow> string list"
  Cache_GarbageCollect :: "PersistentCache \<Rightarrow> PersistentCache"

text \<open>
  The loop \<open>for (auto& key : all_keys)\<close> of \<open>PersistentCacheGarbageCollect\<close>. Its state is
  the cache, \<open>new_delayed_gc_files\<close> and the \<open>ForceEvict\<close> calls made so far;
  \<open>assert(splited_terms.size() > 2)\<close> is the \<open>None\<close> result.
\<close>

fun gc_keys ::
  "GcDeps \<Rightarrow> string set \<Rightarrow> string set \<Rightarrow> string set \<Rightarrow> string list
    \<Rightarrow> PersistentCache \<times> string set \<times> string list
    \<Rightarrow> (PersistentCache \<times> string set \<times> string list) option" where
  "gc_keys D inherited_files active_tablets delayed_gc_files [] st = Some st"
| "gc_keys D inherited_files active_tablets delayed_gc_files (key # keys)
      (p_cache, new_delayed_gc_files, evicted) =
     (if key \<in> inherited_files
      then gc_keys D inherited_files active_tablets delayed_gc_files keys
             (p_cache, new_delayed_gc_files, evicted)
      else
        let splited_terms = SplitString D key ''/'' in
        if \<not> length splited_terms > 2 then None
        else
          let tablet_name = splited_terms ! 0 @ ''/'' @ splited_terms ! 1 in
          if tablet_name \<in> active_tablets
          then gc_keys D inherited_files active_tablets delayed_gc_files keys
                 (p_cache, new_delayed_gc_files, evicted)
          else if key \<in> delayed_gc_files
          then gc_keys D inherited_files active_tablets delayed_gc_files keys
                 (ForceEvict key p_cache, new_delayed_gc_files, evicted @ [key])
          else gc_keys D inherited_files active_tablets delayed_gc_files keys
                 (p_cache, insert key new_delayed_gc_files, evicted))"

text \<open>
  \<open>TabletNodeImpl::PersistentCacheGarbageCollect\<close>. The persistent cache may be absent
  (\<open>GetPersistentCache\<close> fails or yields a null pointer); then nothing happens. Otherwise
  the result is the cache after its own \<open>GarbageCollect\<close>, the new \<open>delayed_gc_files_\<close>
  (after the \<open>swap\<close>) and the \<open>ForceEvict\<close> calls.
\<close>

definition PersistentCacheGarbageCollect ::
  "GcDeps \<Rightarrow> string set \<Rightarrow> string set \<Rightarrow> PersistentCache option \<Rightarrow> string set
    \<Rightarrow> (PersistentCache option \<times> string set \<times> string list) option" where
  "PersistentCacheGarbageCollect D inherited_files active_tablets p_cache delayed_gc_files =
     (case p_cache of
        None \<Rightarrow> Some (None, delayed_gc_files, [])
      | Some c \<Rightarrow>
          (case gc_keys D inherited_files active_tablets delayed_gc_files (GetAllKeys c)
                  (c, {}, []) of
             None \<Rightarrow> None
           | Some (c', new_delayed_gc_files, evicted) \<Rightarrow>
               Some (Some (Cache_GarbageCollect D c'), new_delayed_gc_files, evicted)))"

text \<open>The tablet a cache key belongs to, as the loop extracts it.\<close>

definition tablet_of :: "GcDeps \<Rightarrow> string \<Rightarrow> string" where
  "tablet_of D key = SplitString D key ''/'' ! 0 @ ''/'' @ SplitString D key ''/'' ! 1"

text \<open>A key that is neither an inherited live file nor of an active tablet.\<close>

definition gc_candidate :: "GcDeps \<Rightarrow> string set \<Rightarrow> string set \<Rightarrow> string \<Rightarrow> bool" where
  "gc_candidate D inherited_files active_tablets key =
     (key \<notin> inherited_files \<and> tablet_of D key \<notin> active_tablets)"

text \<open>A sample \<open>SplitString\<close> (pieces between delimiters, empty pieces skipped) and cache.\<close>

fun sample_split :: "char \<Rightarrow> string \<Rightarrow> string list" where
  "sample_split d [] = [[]]"
| "sample_split d (c # cs) =
     (if c = d then [] # sample_split d cs
      else (case sample_split d cs of t # ts \<Rightarrow> (c # t) # ts | [] \<Rightarrow> [[c]]))"

definition sample_SplitString :: "string \<Rightarrow> string \<Rightarrow> string list" where
  "sample_SplitString s delim = filter (\<lambda>t. t \<noteq> []) (sample_split (hd delim) s)"

definition sample_gc_deps :: GcDeps where
  "sample_gc_deps = \<lparr>SplitString = sample_SplitString, Cache_GarbageCollect = (\<lambda>c. c)\<rparr>"

definition sample_cache :: PersistentCache where
  "sample_cache = [''t1/tab1/0/1.sst'', ''t1/tab2/0/7.sst'', ''t2/tab9/0/3.sst'']"

section \<open>Loading a tablet: \<open>TabletNodeImpl::LoadTablet\<close> (tabletnode/tabletnode\_impl.cc)\<close>

text \<open>
  The status codes that \<open>LoadTablet\<close> can put into the response; the tablet states are
  status codes as well (\<open>TabletIO::TabletStatus\<close> in io/tablet\_io.h).
\<close>

datatype StatusCode =
    kTabletNodeOk | kIllegalAccess | kStatusIOError
  | kTabletNotInit | kTabletReady | kTabletOnLoad | kTabletOnSplit | kTabletSplited
  | kTabletUnLoading | kTabletUnLoading2

text \<open>
  The request and the response. \<open>session_id\<close> is an optional field: \<open>has_session_id()\<close> is
  \<open>rq_session_id \<noteq> None\<close>, and \<open>session_id()\<close> of an unset field is the empty string.
\<close>

record LoadTabletRequest =
  rq_sequence_id :: "64 word"
  rq_session_id :: "string option"
  rq_tablet_name :: string
  rq_path :: string
  rq_key_start :: string
  rq_key_end :: string
  rq_locality_groups :: "string list"
  rq_parent_tablets :: "64 word list"
  rq_ignore_err_lgs :: "string list"
  rq_create_time :: int
  rq_version :: "64 word"

record LoadTabletResponse =
  rs_sequence_id :: "64 word option"
  rs_status :: "StatusCode option"
  rs_detail_fail_msg :: "string option"

definition session_id :: "LoadTabletRequest \<Rightarrow> string" where
  "session_id request = (case rq_session_id request of Some s \<Rightarrow> s | None \<Rightarrow> [])"

text \<open>
  The server: its session id (\<open>session_id_\<close>) and its tablet manager (\<open>tablet_manager_\<close>). \<open>TabletManager\<close> and \<open>TabletIO\<close> are not
  among the sources; the manager is a value of an arbitrary type \<open>'tm\<close>, a tablet is reached
  through a handle of type \<open>'io\<close>, and their operations are parameters: \<open>AddTablet\<close> yields
  its boolean result, the tablet handle and the manager afterwards; \<open>Load\<close> its boolean
  result, the last error message and the manager afterwards.
\<close>

record 'tm TabletNodeImpl =
  ts_session_id :: string
  ts_tablet_manager :: 'tm

record ('tm, 'io) TabletDeps =
  AddTablet :: "LoadTabletRequest \<Rightarrow> 'tm \<Rightarrow> bool \<times> 'io \<times> 'tm"
  RemoveTablet :: "string \<Rightarrow> string \<Rightarrow> string \<Rightarrow> 'tm \<Rightarrow> 'tm"
  GetStatus :: "'io \<Rightarrow> 'tm \<Rightarrow> StatusCode"
  DecRef :: "'io \<Rightarrow> 'tm \<Rightarrow> 'tm"
  Load :: "LoadTabletRequest \<Rightarrow> string list \<Rightarrow> 'io \<Rightarrow> 'tm \<Rightarrow> bool \<times> string \<times> 'tm"
  SerializeCorrupt :: "LoadTabletRequest \<Rightarrow> string \<Rightarrow> string \<Rightarrow> string"

text \<open>
  \<open>TabletNodeImpl::LoadTablet(request, response)\<close>. The result is the server and the
  response; \<open>CHECK(i < 2)\<close> on the parent tablets is the \<open>None\<close> result.
  \<open>request->session_id().compare(0, sid.size(), sid) != 0\<close> compares the first
  \<open>sid.size()\<close> characters of the request's session id with \<open>sid\<close>.
\<close>

definition LoadTablet ::
  "('tm, 'io) TabletDeps \<Rightarrow> 'tm TabletNodeImpl \<Rightarrow> LoadTabletRequest \<Rightarrow> LoadTabletResponse
    \<Rightarrow> ('tm TabletNodeImpl \<times> LoadTabletResponse) option" where
  "LoadTablet D ts request response0 =
     (let response = response0\<lparr>rs_sequence_id := Some (rq_sequence_id request)\<rparr>;
          sid = ts_session_id ts
      in if rq_session_id request = None \<or> length sid = 0
            \<or> take (length sid) (session_id request) \<noteq> sid
         then Some (ts, response\<lparr>rs_status := Some kIllegalAccess\<rparr>)
         else if length (rq_locality_groups request) < 1
         then Some (ts, response\<lparr>rs_status := Some kIllegalAccess\<rparr>)
         else if length (rq_parent_tablets request) > 2 then None
         else
           let (added, tablet_io, tm1) = AddTablet D request (ts_tablet_manager ts) in
           if \<not> added
           then Some (ts\<lparr>ts_tablet_manager := DecRef D tablet_io tm1\<rparr>,
                      response\<lparr>rs_status := Some (GetStatus D tablet_io tm1)\<rparr>)
           else
             let (loaded, err_msg, tm2) =
                   Load D request (remdups (rq_ignore_err_lgs request)) tablet_io tm1
             in if \<not> loaded
                then
                  let tm3 = DecRef D tablet_io tm2;
                      tm4 = RemoveTablet D (rq_tablet_name request) (rq_key_start request)
                              (rq_key_end request) tm3
                  in Some (ts\<lparr>ts_tablet_manager := tm4\<rparr>,
                           response\<lparr>rs_status := Some kStatusIOError,
                                    rs_detail_fail_msg :=
                                      Some (SerializeCorrupt D request sid err_msg)\<rparr>)
                else Some (ts\<lparr>ts_tablet_manager := DecRef D tablet_io tm2\<rparr>,
                           response\<lparr>rs_status := Some kTabletNodeOk\<rparr>))"

text \<open>A sample server and request.\<close>

definition sample_tablet_deps :: "(string list, string) TabletDeps" where
  "sample_tablet_deps =
     \<lparr>AddTablet = (\<lambda>rq tm. (True, rq_path rq, rq_path rq # tm)),
      RemoveTablet = (\<lambda>name ks ke tm. tm),
      GetStatus = (\<lambda>io tm. kTabletReady),
      DecRef = (\<lambda>io tm. tm),
      Load = (\<lambda>rq lgs io tm. (True, [], tm)),
      SerializeCorrupt = (\<lambda>rq sid msg. msg)\<rparr>"

definition sample_server :: "string list TabletNodeImpl" where
  "sample_server = \<lparr>ts_session_id = ''ts-2'', ts_tablet_manager = []\<rparr>"

definition sample_request :: LoadTabletRequest where
  "sample_request =
     \<lparr>rq_sequence_id = 9, rq_session_id = Some ''ts-1#master-7'', rq_tablet_name = ''t1'',
      rq_path = ''t1/tablet00000001'', rq_key_start = [], rq_key_end = [],
      rq_locality_groups = [''lg0''], rq_parent_tablets = [], rq_ignore_err_lgs = [],
      rq_create_time = 0, rq_version = 1\<rparr>"

definition sample_response :: LoadTabletResponse where
  "sample_response = \<lparr>rs_sequence_id = None, rs_status = None, rs_detail_fail_msg = None\<rparr>"

section \<open>The persistent block cache (leveldb/util/block\_cache.cc)\<close>

text \<open>
  The block state bits and \<open>struct CacheBlock\<close> (the members that \<open>Read\<close> uses). The buffer
  \<open>data_block\<close> is a list of bytes; \<open>data_block_refs\<close> counts the readers that hold it.
\<close>

definition kCacheBlockValid :: "64 word" where "kCacheBlockValid = 0x1"
definition kCacheBlockLocked :: "64 word" where "kCacheBlockLocked = 0x2"
definition kCacheBlockDfsRead :: "64 word" where "kCacheBlockDfsRead = 0x4"
definition kCacheBlockCacheRead :: "64 word" where "kCacheBlockCacheRead = 0x8"
definition kCacheBlockCacheFill :: "64 word" where "kCacheBlockCacheFill = 0x10"

record CacheBlock =
  cb_fid :: "64 word"
  cb_block_idx :: nat
  cb_state :: "64 word"
  cb_data_block :: string
  cb_data_block_alloc :: bool
  cb_data_block_refs :: "64 word"
  cb_s :: Status

definition Test :: "CacheBlock \<Rightarrow> 64 word \<Rightarrow> bool" where
  "Test b c_state = (cb_state b AND c_state = c_state)"

definition Clear :: "64 word \<Rightarrow> CacheBlock \<Rightarrow> CacheBlock" where
  "Clear c_state b = b\<lparr>cb_state := cb_state b AND NOT c_state\<rparr>"

definition Set_state :: "64 word \<Rightarrow> CacheBlock \<Rightarrow> CacheBlock" where
  "Set_state c_state b = b\<lparr>cb_state := cb_state b OR c_state\<rparr>"

text \<open>
  What is outside the file or decided by other threads: the block that \<open>GetAndAllocBlock\<close>
  finds or inserts for a file id and block index, the indeterminate bytes of a fresh
  \<open>new char[]\<close> by position, what \<open>pread\<close> on the SSD file yields for a block (\<open>None\<close> for a
  negative result), whether \<open>pwrite\<close> of a block succeeds, the status of \<open>db_->Write\<close> for the
  record of a block, \<open>dfs_file_->Read(offset, n)\<close> (status and bytes), and the block as another
  reader leaves it when it releases its lock.
\<close>

record CacheDeps =
  GetAndAllocBlock :: "64 word \<Rightarrow> nat \<Rightarrow> CacheBlock"
  uninitialized :: "nat \<Rightarrow> char"
  pread :: "CacheBlock \<Rightarrow> string option"
  pwrite :: "CacheBlock \<Rightarrow> bool"
  db_Write :: "CacheBlock \<Rightarrow> Status"
  dfs_Read :: "nat \<Rightarrow> nat \<Rightarrow> Status \<times> string"
  unlocked_by_other :: "CacheBlock \<Rightarrow> CacheBlock"

text \<open>
  \<open>CacheBlock::GetDataBlock(block_size, Slice())\<close>: the first reader allocates a buffer of
  \<open>block_size\<close> bytes (both \<open>assert\<close>s give \<open>None\<close>), a later one shares it.
  \<open>CacheBlock::ReleaseDataBlock\<close> frees it with the last reader.
\<close>

definition GetDataBlock :: "CacheDeps \<Rightarrow> nat \<Rightarrow> CacheBlock \<Rightarrow> CacheBlock option" where
  "GetDataBlock D block_size b =
     (if cb_data_block_refs b = 0
      then (if cb_data_block b \<noteq> [] then None
            else if cb_data_block_alloc b then None
            else Some (b\<lparr>cb_data_block := map (uninitialized D) [0..<block_size],
                         cb_data_block_alloc := True, cb_data_block_refs := 1\<rparr>))
      else Some (b\<lparr>cb_data_block_refs := cb_data_block_refs b + 1\<rparr>))"

definition ReleaseDataBlock :: "CacheBlock \<Rightarrow> CacheBlock" where
  "ReleaseDataBlock b =
     (let b1 = b\<lparr>cb_data_block_refs := cb_data_block_refs b - 1\<rparr>
      in if cb_data_block_refs b1 = 0
         then b1\<lparr>cb_data_block_alloc := False, cb_data_block := []\<rparr>
         else b1)"

text \<open>
  A read into the buffer of a block stores the bytes it yields at the start of the buffer;
  the buffer keeps its size.
\<close>

definition store_bytes :: "string \<Rightarrow> string \<Rightarrow> string" where
  "store_bytes bytes buf = take (length buf) bytes @ drop (length bytes) buf"

text \<open>
  \<open>BlockCacheImpl::ReadCache(block, NULL)\<close>, \<open>FillCache\<close> and \<open>LogRecord\<close>: the status, and
  for the read the buffer afterwards.
\<close>

definition ReadCache :: "CacheDeps \<Rightarrow> CacheBlock \<Rightarrow> Status \<times> string" where
  "ReadCache D block =
     (case pread D block of
        None \<Rightarrow> (Err kCorruption ''ReadCache error'', cb_data_block block)
      | Some bytes \<Rightarrow> (OK, store_bytes bytes (cb_data_block block)))"

definition FillCache :: "CacheDeps \<Rightarrow> CacheBlock \<Rightarrow> Status" where
  "FillCache D block = (if pwrite D block then OK else Err kCorruption ''FillCache error'')"

definition LogRecord :: "CacheDeps \<Rightarrow> CacheBlock \<Rightarrow> Status" where
  "LogRecord D block = db_Write D block"

text \<open>The three lists a block can be put on.\<close>

datatype BlockList = c_valid | c_miss | c_locked

text \<open>The first loop of \<open>Read\<close>: classify a block and lock it for the read that follows.\<close>

definition queue_block :: "CacheBlock \<Rightarrow> BlockList \<times> CacheBlock" where
  "queue_block block =
     (if \<not> Test block kCacheBlockLocked \<and> Test block kCacheBlockValid
      then (c_valid, Set_state (kCacheBlockLocked OR kCacheBlockCacheRead) block)
      else if \<not> Test block kCacheBlockLocked
      then (c_miss, Set_state (kCacheBlockLocked OR kCacheBlockDfsRead) block)
      else (c_locked, block))"

text \<open>
  \<open>HandleCacheRead\<close>, \<open>HandleDfsRead\<close> and \<open>HandleCacheWrite\<close>: each stores its status in
  \<open>block->s\<close> and clears its state bit. The DFS read is given the buffer of the block as
  \<open>scratch\<close> and its \<open>result\<close> is dropped. The cache fill logs the record and, if that
  succeeded, writes the block.
\<close>

definition HandleCacheRead :: "CacheDeps \<Rightarrow> CacheBlock \<Rightarrow> CacheBlock" where
  "HandleCacheRead D block =
     (let (st, buf) = ReadCache D block
      in Clear kCacheBlockCacheRead (block\<lparr>cb_s := st, cb_data_block := buf\<rparr>))"

definition HandleDfsRead :: "CacheDeps \<Rightarrow> nat \<Rightarrow> CacheBlock \<Rightarrow> CacheBlock" where
  "HandleDfsRead D block_size block =
     (let (st, bytes) = dfs_Read D (cb_block_idx block * block_size) block_size
      in Clear kCacheBlockDfsRead
           (block\<lparr>cb_s := st, cb_data_block := store_bytes bytes (cb_data_block block)\<rparr>))"

definition HandleCacheWrite :: "CacheDeps \<Rightarrow> CacheBlock \<Rightarrow> CacheBlock" where
  "HandleCacheWrite D block =
     (let b1 = block\<lparr>cb_s := LogRecord D block\<rparr>;
          b2 = (if ok (cb_s b1) then b1\<lparr>cb_s := FillCache D b1\<rparr> else b1)
      in Clear kCacheBlockCacheFill b2)"

text \<open>
  The waiting loops of \<open>Read\<close>, one block at a time, threading the request status \<open>s\<close>:
  \<open>if (!block->s.ok() && s.ok()) s = block->s\<close>.
\<close>

definition degrade :: "CacheBlock \<Rightarrow> Status \<Rightarrow> Status" where
  "degrade block s = (if \<not> ok (cb_s block) \<and> ok s then cb_s block else s)"

definition wait_cache_read :: "CacheDeps \<Rightarrow> CacheBlock \<Rightarrow> CacheBlock" where
  "wait_cache_read D block = Clear kCacheBlockLocked (HandleCacheRead D block)"

definition wait_dfs_read :: "CacheDeps \<Rightarrow> nat \<Rightarrow> CacheBlock \<Rightarrow> CacheBlock" where
  "wait_dfs_read D block_size block =
     Set_state kCacheBlockCacheFill (HandleDfsRead D block_size block)"

definition wait_cache_fill :: "CacheDeps \<Rightarrow> CacheBlock \<Rightarrow> CacheBlock" where
  "wait_cache_fill D block =
     (let b1 = HandleCacheWrite D block;
          b2 = (if ok (cb_s b1) then Set_state kCacheBlockValid b1 else b1)
      in Clear kCacheBlockLocked b2)"

text \<open>
  One block through all phases: the block after the waiting loops, and the statuses that the
  loops looked at for it, in the order of the loops (phase number, status). For a block found
  locked the loop only waits for the lock to clear: it looks at no status.
\<close>

definition run_block ::
  "CacheDeps \<Rightarrow> nat \<Rightarrow> BlockList \<times> CacheBlock \<Rightarrow> CacheBlock \<times> (nat \<times> Status) list" where
  "run_block D block_size qb =
     (case fst qb of
        c_valid \<Rightarrow> (let b = wait_cache_read D (snd qb) in (b, [(0, cb_s b)]))
      | c_miss \<Rightarrow>
          (let b1 = wait_dfs_read D block_size (snd qb);
               b2 = wait_cache_fill D b1
           in (b2, [(1, cb_s b1), (2, cb_s b2)]))
      | c_locked \<Rightarrow> (unlocked_by_other D (snd qb), []))"

text \<open>
  The request status after the three waiting loops: the loops run one after the other over
  their lists, so the statuses are taken phase by phase, each phase in block order.
\<close>

definition request_status :: "(nat \<times> Status) list list \<Rightarrow> Status" where
  "request_status per_block =
     (let looked = concat per_block;
          in_order = filter (\<lambda>x. fst x = 0) looked @ filter (\<lambda>x. fst x = 1) looked
                       @ filter (\<lambda>x. fst x = 2) looked
      in foldl (\<lambda>s x. if \<not> ok (snd x) \<and> ok s then snd x else s) OK in_order)"

text \<open>
  The loop \<open>fill user mem\<close>: the first block loses the prefix \<open>offset % block_size\<close>, the
  last block the suffix \<open>block_size - (n + offset) % block_size\<close>.
\<close>

definition fill_user_mem :: "nat \<Rightarrow> nat \<Rightarrow> nat \<Rightarrow> string list \<Rightarrow> string" where
  "fill_user_mem block_size offset n datas =
     concat (map (\<lambda>i.
        let d0 = datas ! i;
            d1 = (if i = 0 then drop (offset mod block_size) d0 else d0);
            d2 = (if i = length datas - 1
                  then take (length d1 - (block_size - (n + offset) mod block_size)) d1
                  else d1)
        in d2) [0..<length datas])"

text \<open>
  \<open>BlockCacheImpl::ReleaseBlock(block, need_sync)\<close>: the status of the \<open>LogRecord\<close> that
  \<open>need_sync\<close> asks for is dropped by \<open>Read\<close>; the buffer is released and \<open>block->s\<close> reset.
\<close>

definition ReleaseBlock :: "CacheBlock \<Rightarrow> CacheBlock" where
  "ReleaseBlock block = (ReleaseDataBlock block)\<lparr>cb_s := OK\<rparr>"

text \<open>
  \<open>BlockCacheRandomAccessFile::Read(offset, n, result, scratch)\<close>. The result is the status,
  the bytes of \<open>*result\<close> and the blocks as they are left. A zero block size (division by
  zero) and a failed \<open>assert\<close> (on the block that \<open>GetAndAllocBlock\<close> yields, in
  \<open>GetDataBlock\<close>, or \<open>msize == n\<close>) are the \<open>None\<close> result.
\<close>

definition Read ::
  "CacheDeps \<Rightarrow> nat \<Rightarrow> 64 word \<Rightarrow> nat \<Rightarrow> nat \<Rightarrow> (Status \<times> string \<times> CacheBlock list) option" where
  "Read D block_size fid offset n =
     (if block_size = 0 then None
      else
        let begin_idx = offset div block_size;
            end_idx = (offset + n) div block_size;
            got = map (\<lambda>block_idx.
                     let block = GetAndAllocBlock D fid block_idx
                     in if cb_fid block = fid \<and> cb_block_idx block = block_idx
                        then map_option queue_block (GetDataBlock D block_size block)
                        else None)
                   [begin_idx..<Suc end_idx]
        in if list_ex (\<lambda>x. x = None) got then None
           else
             let block_queue = map the got;
                 finished = map (run_block D block_size) block_queue;
                 s = request_status (map snd finished);
                 scratch = fill_user_mem block_size offset n
                             (map (\<lambda>x. cb_data_block (fst x)) finished);
                 released = map (\<lambda>x. ReleaseBlock (fst x)) finished
             in if length scratch \<noteq> n then None
                else if \<not> ok s
                then (let (s', result) = dfs_Read D offset n in Some (s', result, released))
                else Some (s, scratch, released))"

text \<open>
  A sample cache over a 12-byte file with 4-byte blocks: block 0 is valid on the SSD, the
  other blocks are missing, nothing fails.
\<close>

definition sample_block :: "64 word \<Rightarrow> nat \<Rightarrow> CacheBlock" where
  "sample_block fid idx =
     \<lparr>cb_fid = fid, cb_block_idx = idx, cb_state = (if idx = 0 then 1 else 0),
      cb_data_block = [], cb_data_block_alloc = False, cb_data_block_refs = 0, cb_s = OK\<rparr>"

definition sample_cache_deps :: CacheDeps where
  "sample_cache_deps =
     \<lparr>GetAndAllocBlock = sample_block,
      uninitialized = (\<lambda>i. CHR ''?''),
      pread = (\<lambda>b. Some (take 4 (drop (4 * cb_block_idx b) ''abcdefghijkl''))),
      pwrite = (\<lambda>b. True), db_Write = (\<lambda>b. OK),
      dfs_Read = (\<lambda>off len. (OK, take len (drop off ''abcdefghijkl''))),
      unlocked_by_other = (\<lambda>b. b)\<rparr>"

text \<open>
  The same cache while another reader is at work on block 1, which it found missing: it holds
  the lock and the buffer it allocated, and its DFS read of the block is under way. That read
  fails; the other reader then runs its cache fill on the block and releases the lock.
\<close>

definition failing_dfs_deps :: CacheDeps where
  "failing_dfs_deps =
     sample_cache_deps
       \<lparr>dfs_Read := (\<lambda>off len. if off = 4 then (Err kIOError ''dfs'', [])
                               else (OK, take len (drop off ''abcdefghijkl'')))\<rparr>"

definition block_of_other_reader :: CacheBlock where
  "block_of_other_reader =
     snd (queue_block (the (GetDataBlock failing_dfs_deps 4 (sample_block 7 1))))"

definition racing_deps :: CacheDeps where
  "racing_deps =
     failing_dfs_deps
       \<lparr>GetAndAllocBlock := (\<lambda>fid idx. if idx = 1 then block_of_other_reader
                                       else sample_block fid idx),
        unlocked_by_other := (\<lambda>b. wait_cache_fill failing_dfs_deps
                                     (wait_dfs_read failing_dfs_deps 4 b))\<rparr>"

section \<open>The persistent block cache: deleting a file (leveldb/util/block\_cache.cc)\<close>

text \<open>
  Modelled from the spec: \<open>PutFixed64\<close> and \<open>DecodeFixed64\<close> (util/coding.h) are not among the
  sources; the spec says the metadata values are little-endian fixed-width encodings.
\<close>

definition PutFixed64 :: "64 word \<Rightarrow> string" where
  "PutFixed64 v = map (\<lambda>i. char_of (unat (drop_bit (8 * i) v) mod 256)) [0..<8]"

definition DecodeFixed64 :: "string \<Rightarrow> 64 word" where
  "DecodeFixed64 bytes =
     foldr (\<lambda>c acc. push_bit 8 acc + of_nat (of_char c)) (take 8 bytes) 0"

text \<open>\<open>CacheBlock::Encode\<close>: file id, block index and state.\<close>

definition Encode_record :: "64 word \<Rightarrow> 64 word \<Rightarrow> 64 word \<Rightarrow> string" where
  "Encode_record fid block_idx state = PutFixed64 fid @ PutFixed64 block_idx @ PutFixed64 state"

text \<open>The key under which \<open>LogRecord\<close> stores a block: \<open>DS#\<close>, data set id, slot.\<close>

definition DS_key :: "64 word \<Rightarrow> 64 word \<Rightarrow> string" where
  "DS_key sid cache_block_idx = ''DS#'' @ PutFixed64 sid @ PutFixed64 cache_block_idx"

text \<open>
  \<open>BlockCacheImpl\<close>: the metadata store \<open>db_\<close> as a map from keys to values, and
  \<open>lock_key_\<close>, the waiters of the keys that some thread is working on (\<open>wait_num\<close> each).
\<close>

record BlockCacheImpl =
  meta_db :: "string \<rightharpoonup> string"
  lock_key :: "string \<rightharpoonup> int"

text \<open>\<open>LockContent\<close> with its \<open>type\<close>, and \<open>LockContent::Encode\<close>.\<close>

datatype LockContent = kDBKey string string | kDataSetKey "64 word" | kDeleteDBKey string

fun Encode :: "LockContent \<Rightarrow> string" where
  "Encode (kDBKey db_lock_key db_lock_val) = db_lock_key"
| "Encode (kDeleteDBKey db_lock_key) = db_lock_key"
| "Encode (kDataSetKey sid) = ''DS#'' @ PutFixed64 sid"

text \<open>
  The status with which the metadata store answers a write of a key (a failed write leaves
  the store as it is), what \<open>ReloadDataSet\<close> does, and what the thread that holds a key
  does to the cache while this one waits for it, are parameters.
\<close>

record BlockCacheDeps =
  db_write_status :: "string \<Rightarrow> Status"
  put_data_set :: "64 word \<Rightarrow> BlockCacheImpl \<Rightarrow> Status \<times> BlockCacheImpl"
  holder_finishes :: "string \<Rightarrow> BlockCacheImpl \<Rightarrow> BlockCacheImpl"

text \<open>
  \<open>PutContentAfterLock\<close> and \<open>GetContentAfterWait\<close>; the second component is \<open>*lc.db_val\<close>
  where one is produced.
\<close>

definition PutContentAfterLock ::
  "BlockCacheDeps \<Rightarrow> LockContent \<Rightarrow> BlockCacheImpl \<Rightarrow> Status \<times> string option \<times> BlockCacheImpl" where
  "PutContentAfterLock D lc c =
     (case lc of
        kDBKey key val \<Rightarrow>
          if ok (db_write_status D key)
          then (OK, Some val, c\<lparr>meta_db := (meta_db c)(key \<mapsto> val)\<rparr>)
          else (db_write_status D key, None, c)
      | kDeleteDBKey key \<Rightarrow>
          if ok (db_write_status D key)
          then (OK, None, c\<lparr>meta_db := (meta_db c)(key := None)\<rparr>)
          else (db_write_status D key, None, c)
      | kDataSetKey sid \<Rightarrow> (let (s, c') = put_data_set D sid c in (s, None, c')))"

definition GetContentAfterWait ::
  "LockContent \<Rightarrow> BlockCacheImpl \<Rightarrow> Status \<times> string option" where
  "GetContentAfterWait lc c =
     (case lc of
        kDBKey key val \<Rightarrow>
          (case meta_db c key of
             Some v \<Rightarrow> (OK, Some v)
           | None \<Rightarrow> (Err kNotFound [], None))
      | _ \<Rightarrow> (OK, None))"

text \<open>
  \<open>BlockCacheImpl::LockAndPut\<close>. If another thread holds the key, this one waits until the
  holder has finished and only reads; otherwise it takes the key, writes, and gives the key
  back (it is the only waiter when it has finished, the model being sequential).
\<close>

definition LockAndPut ::
  "BlockCacheDeps \<Rightarrow> LockContent \<Rightarrow> BlockCacheImpl \<Rightarrow> Status \<times> string option \<times> BlockCacheImpl" where
  "LockAndPut D lc c =
     (let key = Encode lc in
      if key = [] then (Err kNotSupported ''key type error'', None, c)
      else
        (case lock_key c key of
           Some wait_num \<Rightarrow>
             let c1 = holder_finishes D key (c\<lparr>lock_key := (lock_key c)(key \<mapsto> wait_num + 1)\<rparr>);
                 (s, val) = GetContentAfterWait lc c1;
                 c2 = (case lock_key c1 key of
                         Some w \<Rightarrow>
                           if w - 1 = 0 then c1\<lparr>lock_key := (lock_key c1)(key := None)\<rparr>
                           else c1\<lparr>lock_key := (lock_key c1)(key \<mapsto> w - 1)\<rparr>
                       | None \<Rightarrow> c1)
             in (s, val, c2)
         | None \<Rightarrow>
             let c1 = c\<lparr>lock_key := (lock_key c)(key \<mapsto> 1)\<rparr>;
                 (s, val, c2) = PutContentAfterLock D lc c1
             in (s, val, c2\<lparr>lock_key := (lock_key c2)(key := None)\<rparr>)))"

text \<open>\<open>BlockCacheImpl::DeleteFile\<close>.\<close>

definition BlockCacheImpl_DeleteFile ::
  "BlockCacheDeps \<Rightarrow> string \<Rightarrow> BlockCacheImpl \<Rightarrow> Status \<times> BlockCacheImpl" where
  "BlockCacheImpl_DeleteFile D fname c =
     (let key = ''FNAME#'' @ fname;
          (s, val, c') = LockAndPut D (kDeleteDBKey key) c
      in (s, c'))"

text \<open>
  \<open>std::string::rfind\<close> for a non-empty pattern, with \<open>npos\<close> as \<open>-1\<close>, and
  \<open>BlockCacheEnv::DeleteFile\<close>: the test \<open>fname.rfind(".sst") == fname.size() - 4\<close> is in
  unsigned 64-bit arithmetic. \<open>Hash\<close> and the DFS are parameters; an empty \<open>cache_vec_\<close>
  (division by zero) is the \<open>None\<close> result. The status of the cache is dropped, that of the
  DFS is returned.
\<close>

definition rfind :: "string \<Rightarrow> string \<Rightarrow> 64 word" where
  "rfind s pat =
     (if length s < length pat then - 1
      else (case filter (\<lambda>i. take (length pat) (drop i s) = pat)
                   (rev [0..<Suc (length s - length pat)]) of
              [] \<Rightarrow> - 1
            | i # later \<Rightarrow> of_nat i))"

record BlockCacheEnv =
  cache_vec :: "BlockCacheImpl list"
  dfs_files :: "string set"

definition BlockCacheEnv_DeleteFile ::
  "BlockCacheDeps \<Rightarrow> (string \<Rightarrow> 32 word) \<Rightarrow> (string \<Rightarrow> string set \<Rightarrow> Status \<times> string set)
    \<Rightarrow> string \<Rightarrow> BlockCacheEnv \<Rightarrow> (Status \<times> BlockCacheEnv) option" where
  "BlockCacheEnv_DeleteFile D Hash dfs_DeleteFile fname env =
     (if rfind fname ''.sst'' = of_nat (length fname) - 4
      then
        (if cache_vec env = [] then None
         else
           let hash = unat (Hash fname) mod length (cache_vec env);
               (s0, cache') = BlockCacheImpl_DeleteFile D fname (cache_vec env ! hash);
               (s, files') = dfs_DeleteFile fname (dfs_files env)
           in Some (s, env\<lparr>cache_vec := (cache_vec env)[hash := cache'], dfs_files := files'\<rparr>))
      else
        (let (s, files') = dfs_DeleteFile fname (dfs_files env)
         in Some (s, env\<lparr>dfs_files := files'\<rparr>)))"

text \<open>A sample cache: the file \<open>t/1.sst\<close> has file id 7 and one cached block.\<close>

definition sample_block_deps :: BlockCacheDeps where
  "sample_block_deps =
     \<lparr>db_write_status = (\<lambda>key. OK), put_data_set = (\<lambda>sid c. (OK, c)),
      holder_finishes = (\<lambda>key c. c)\<rparr>"

definition sample_block_cache :: BlockCacheImpl where
  "sample_block_cache =
     \<lparr>meta_db = [''FNAME#t/1.sst'' \<mapsto> PutFixed64 7,
                  DS_key 0 3 \<mapsto> Encode_record 7 0 kCacheBlockValid],
      lock_key = Map.empty\<rparr>"

section \<open>Reading a key: \<open>DBImpl::Get\<close>\<close>

text \<open>
  \<open>ReadOptions\<close>, as far as \<open>Get\<close> reads it (\<open>snapshot\<close> is \<open>kMaxSequenceNumber\<close> when the
  caller supplies none), and \<open>LookupKey(key, snapshot)\<close>.
\<close>

record ReadOptions =
  ro_snapshot :: SequenceNumber
  ro_rollbacks :: "(SequenceNumber \<times> SequenceNumber) list"

record LookupKey =
  lk_user_key :: string
  lk_sequence :: SequenceNumber

text \<open>\<open>DBImpl::GetLastSequence(false)\<close>; \<open>mem_\<close> is dereferenced.\<close>

definition GetLastSequence :: "DBImpl \<Rightarrow> SequenceNumber option" where
  "GetLastSequence db =
     (case mem db of
        None \<Rightarrow> None
      | Some m \<Rightarrow>
          Some (if 0 < mt_last_sequence m then mt_last_sequence m
                else (case imm db of
                        Some i \<Rightarrow>
                          if mt_last_sequence i \<noteq> 0 then mt_last_sequence i
                          else LastSequence (versions db)
                      | None \<Rightarrow> LastSequence (versions db))))"

text \<open>
  Modelled from the spec: \<open>MemTable::Get\<close> and \<open>Version::Get\<close> are not among the sources.
  The spec has a read return the first entry of the key whose sequence is at most the
  snapshot, consult the rollbacks to hide the entries of a rollback window, and answer
  not-found when that entry is a deletion or the strategy drops it. A table that holds no such
  entry does not answer, and the next table is probed; the version probes its tables in
  ascending level order and answers not-found when none of them holds one.
\<close>

definition visible :: "LookupKey \<Rightarrow> (SequenceNumber \<times> SequenceNumber) list \<Rightarrow> Entry \<Rightarrow> bool" where
  "visible lkey rbs e =
     (ik_user_key (fst e) = lk_user_key lkey \<and> ik_sequence (fst e) \<le> lk_sequence lkey
      \<and> \<not> RollbackDrop (ik_sequence (fst e)) rbs)"

definition entry_answer :: "CompactStrategy option \<Rightarrow> Entry \<Rightarrow> Status \<times> string option" where
  "entry_answer strategy e =
     (if ik_type (fst e) = kTypeDeletion
         \<or> (case strategy of
               Some st \<Rightarrow> Drop st (ik_user_key (fst e)) (ik_sequence (fst e)) []
             | None \<Rightarrow> False)
      then (Err kNotFound [], None)
      else (OK, Some (snd e)))"

definition table_Get ::
  "CompactStrategy option \<Rightarrow> Entry list \<Rightarrow> LookupKey \<Rightarrow> (SequenceNumber \<times> SequenceNumber) list
    \<Rightarrow> (Status \<times> string option) option" where
  "table_Get strategy entries lkey rbs =
     map_option (entry_answer strategy) (find (visible lkey rbs) entries)"

definition MemTable_Get ::
  "CompactStrategy option \<Rightarrow> MemTable \<Rightarrow> LookupKey \<Rightarrow> (SequenceNumber \<times> SequenceNumber) list
    \<Rightarrow> (Status \<times> string option) option" where
  "MemTable_Get strategy m lkey rbs = table_Get strategy (mt_entries m) lkey rbs"

fun probe_tables ::
  "CompactStrategy option \<Rightarrow> Entry list list \<Rightarrow> LookupKey \<Rightarrow> (SequenceNumber \<times> SequenceNumber) list
    \<Rightarrow> Status \<times> string option" where
  "probe_tables strategy [] lkey rbs = (Err kNotFound [], None)"
| "probe_tables strategy (t # ts) lkey rbs =
     (case table_Get strategy t lkey rbs of
        Some answer \<Rightarrow> answer
      | None \<Rightarrow> probe_tables strategy ts lkey rbs)"

definition Version_Get ::
  "CompactStrategy option \<Rightarrow> VersionSet \<Rightarrow> ReadOptions \<Rightarrow> LookupKey \<Rightarrow> Status \<times> string option" where
  "Version_Get strategy vs options lkey =
     probe_tables strategy (current vs) lkey (ro_rollbacks options)"

text \<open>
  \<open>DBImpl::Get\<close>. The result is the status, the string assigned to \<open>*value\<close> if one was,
  and the engine afterwards; \<open>None\<close> is a null \<open>mem_\<close> or a failed assertion of
  \<open>MaybeScheduleCompaction\<close>. \<open>mem\<close> and \<open>imm\<close> are referenced for the duration of the call
  (\<open>pin_tables\<close>) and unreferenced at its end. The strategy of the tables (set when
  \<open>enable_strategy_when_get\<close>) and \<open>Version::UpdateStats\<close> are parameters.
\<close>

definition pin_tables :: "DBImpl \<Rightarrow> DBImpl" where
  "pin_tables db = db\<lparr>mem := map_option MemTable_Ref (mem db),
                       imm := map_option MemTable_Ref (imm db)\<rparr>"

definition unpin_tables :: "DBImpl \<Rightarrow> DBImpl" where
  "unpin_tables db = db\<lparr>mem := map_option MemTable_Unref (mem db),
                         imm := map_option MemTable_Unref (imm db)\<rparr>"

definition DBImpl_Get ::
  "Absent \<Rightarrow> CompactStrategy option \<Rightarrow> (VersionSet \<Rightarrow> LookupKey \<Rightarrow> bool) \<Rightarrow> ReadOptions \<Rightarrow> string
    \<Rightarrow> DBImpl \<Rightarrow> (Status \<times> string option \<times> DBImpl) option" where
  "DBImpl_Get A strategy UpdateStats options key db =
     (case (if ro_snapshot options \<noteq> kMaxSequenceNumber A then Some (ro_snapshot options)
            else GetLastSequence db) of
        None \<Rightarrow> None
      | Some snapshot \<Rightarrow>
          (case mem (pin_tables db) of
             None \<Rightarrow> None
           | Some m \<Rightarrow>
               let db1 = pin_tables db;
                   lkey = \<lparr>lk_user_key = key, lk_sequence = snapshot\<rparr>;
                   (answer, have_stat_update) =
                     (case MemTable_Get strategy m lkey (ro_rollbacks options) of
                        Some a \<Rightarrow> (a, False)
                      | None \<Rightarrow>
                          (case (case imm db1 of
                                   Some i \<Rightarrow> MemTable_Get strategy i lkey (ro_rollbacks options)
                                 | None \<Rightarrow> None) of
                             Some a \<Rightarrow> (a, False)
                           | None \<Rightarrow> (Version_Get strategy (versions db1) options lkey, True)))
               in (case (if have_stat_update \<and> UpdateStats (versions db1) lkey
                         then MaybeScheduleCompaction A db1 else Some db1) of
                     None \<Rightarrow> None
                   | Some db2 \<Rightarrow> Some (fst answer, snd answer, unpin_tables db2))))"

text \<open>
  The tables of the engine in the order in which \<open>Get\<close> probes them, the order of the
  entries inside a table, and what it is for a table to hold the newer entries of every key.
\<close>

definition tiers :: "DBImpl \<Rightarrow> Entry list list" where
  "tiers db =
     (case mem db of Some m \<Rightarrow> [mt_entries m] | None \<Rightarrow> [])
     @ (case imm db of Some i \<Rightarrow> [mt_entries i] | None \<Rightarrow> [])
     @ current (versions db)"

definition entry_less :: "Entry \<Rightarrow> Entry \<Rightarrow> bool" where
  "entry_less a b = InternalKeyComparator_less (fst a) (fst b)"

definition newer_table :: "Entry list \<Rightarrow> Entry list \<Rightarrow> bool" where
  "newer_table t u =
     list_all (\<lambda>a. list_all (\<lambda>b. ik_user_key (fst a) = ik_user_key (fst b)
                                  \<longrightarrow> ik_sequence (fst b) < ik_sequence (fst a)) u) t"

definition read_snapshot :: "Absent \<Rightarrow> ReadOptions \<Rightarrow> DBImpl \<Rightarrow> SequenceNumber" where
  "read_snapshot A options db =
     (if ro_snapshot options \<noteq> kMaxSequenceNumber A then ro_snapshot options
      else the (GetLastSequence db))"

text \<open>
  A sample engine: the key \<open>k\<close> was written at sequences 2 (flushed), 5 and 8 (in the
  memtable); the read carries the rollback \<open>6 \<mapsto> 9\<close>.
\<close>

definition sample_read_db :: DBImpl where
  "sample_read_db =
     sample_db\<lparr>mem := Some (sample_memtable
                    \<lparr>refs := 1, mt_last_sequence := 8,
                     mt_entries := [(\<lparr>ik_user_key = ''k'', ik_sequence = 8, ik_type = kTypeValue\<rparr>, ''v8''),
                                    (\<lparr>ik_user_key = ''k'', ik_sequence = 5, ik_type = kTypeValue\<rparr>, ''v5'')]\<rparr>),
                versions := sample_versions
                    \<lparr>LastSequence := 2,
                     current := [[(\<lparr>ik_user_key = ''k'', ik_sequence = 2, ik_type = kTypeValue\<rparr>, ''v2'')]]\<rparr>\<rparr>"

definition sample_read_options :: ReadOptions where
  "sample_read_options = \<lparr>ro_snapshot = 10, ro_rollbacks = [(6, 9)]\<rparr>"

section \<open>Theorems\<close>

subsection \<open>Evaluating the sample values\<close>

lemma ClipToRange_sample: "ClipToRange 4194304 65536 1073741824 = 4194304"
  by (simp add: ClipToRange_def)

lemmas sample_defs = sample_bg_db_def sample_imm_db_def sample_db_def DBImpl_ctor_def
  DBImpl_init_def NewMemTable_def ClipToRange_sample
  sample_absent_def sample_memtable_def sample_versions_def sample_task_def sample_rest_def
  failing_absent_def denied_absent_def snapshot_absent_def MemTable_Ref_def


subsection \<open>Snapshots\<close>



lemma ReleaseSnapshot_absent:
  "seq \<notin># snapshots db \<Longrightarrow> ReleaseSnapshot db seq = None"
  by (simp add: ReleaseSnapshot_def Let_def)






subsection \<open>Flushing the immutable memtable\<close>









subsection \<open>Background compaction: scheduling, retry and back-off\<close>













subsection \<open>Write stalls\<close>
















subsection \<open>The compaction walk\<close>

lemma order_squeeze:
  fixes a b c :: "'a::linorder"
  assumes "a = c" and "a < b \<or> (a = b \<and> p)" and "b < c \<or> (b = c \<and> q)"
  shows "b = c \<and> p \<and> q"
  using assms by auto

lemma sorted_last_before:
  assumes "sorted_wrt InternalKeyComparator_less (ks @ e # rs)" and "ks \<noteq> []"
  shows "InternalKeyComparator_less (last ks) e"
proof -
  from assms(2) have "last ks \<in> set ks" by simp
  with assms(1) show ?thesis by (simp add: sorted_wrt_append)
qed

lemma sorted_newer_same_key:
  assumes s: "sorted_wrt InternalKeyComparator_less (ks @ e # rs)"
    and mem: "k' \<in> set (ks @ e # rs)" and uk: "ik_user_key k' = ik_user_key e"
    and newer: "ik_sequence e < ik_sequence k'"
  shows "ks \<noteq> [] \<and> ik_user_key (last ks) = ik_user_key e
         \<and> ik_sequence (last ks) \<le> ik_sequence k'"
proof -
  from s have after: "\<forall>r\<in>set rs. InternalKeyComparator_less e r"
    by (simp add: sorted_wrt_append)
  have "k' \<notin> set rs"
  proof
    assume "k' \<in> set rs"
    with after have "InternalKeyComparator_less e k'" by simp
    with uk newer show False by (auto simp: InternalKeyComparator_less_def)
  qed
  moreover from newer have "k' \<noteq> e" by auto
  ultimately have in_ks: "k' \<in> set ks" using mem by auto
  then have ne: "ks \<noteq> []" by auto
  from sorted_last_before [OF s ne] have le: "InternalKeyComparator_less (last ks) e" .
  from ne obtain ys y where ks: "ks = ys @ [y]" by (cases ks rule: rev_cases) auto
  from s ks have ys: "\<forall>x\<in>set ys. InternalKeyComparator_less x y"
    by (simp add: sorted_wrt_append)
  from le ks have ye: "InternalKeyComparator_less y e" by simp
  from in_ks ks have "k' = y \<or> k' \<in> set ys" by auto
  then have "ik_user_key y = ik_user_key e \<and> ik_sequence y \<le> ik_sequence k'"
  proof
    assume "k' = y"
    with uk show ?thesis by simp
  next
    assume "k' \<in> set ys"
    with ys have "InternalKeyComparator_less k' y" by simp
    from order_squeeze [OF uk this [unfolded InternalKeyComparator_less_def]
        ye [unfolded InternalKeyComparator_less_def]]
    show ?thesis by (simp add: order_less_imp_le)
  qed
  with ne ks show ?thesis by simp
qed


lemma rule_A_iff:
  assumes s: "sorted_wrt InternalKeyComparator_less (ks @ e # rs)"
  shows "(ks \<noteq> [] \<and> ik_user_key (last ks) = ik_user_key e \<and> ik_sequence (last ks) \<le> ss)
     \<longleftrightarrow> list_ex (\<lambda>k'. ik_user_key k' = ik_user_key e \<and> ik_sequence k' \<le> ss
                        \<and> ik_sequence e < ik_sequence k') (ks @ e # rs)"
proof
  assume a: "ks \<noteq> [] \<and> ik_user_key (last ks) = ik_user_key e \<and> ik_sequence (last ks) \<le> ss"
  then have ne: "ks \<noteq> []" by simp
  from sorted_last_before [OF s ne] a have "ik_sequence e < ik_sequence (last ks)"
    by (simp add: InternalKeyComparator_less_def)
  moreover from ne have "last ks \<in> set (ks @ e # rs)" by simp
  ultimately show "list_ex (\<lambda>k'. ik_user_key k' = ik_user_key e \<and> ik_sequence k' \<le> ss
                        \<and> ik_sequence e < ik_sequence k') (ks @ e # rs)"
    using a unfolding list_ex_iff by blast
next
  assume "list_ex (\<lambda>k'. ik_user_key k' = ik_user_key e \<and> ik_sequence k' \<le> ss
                        \<and> ik_sequence e < ik_sequence k') (ks @ e # rs)"
  then obtain k' where k: "k' \<in> set (ks @ e # rs)" "ik_user_key k' = ik_user_key e"
      "ik_sequence k' \<le> ss" "ik_sequence e < ik_sequence k'"
    unfolding list_ex_iff by blast
  from sorted_newer_same_key [OF s k(1) k(2) k(4)] k(3)
  show "ks \<noteq> [] \<and> ik_user_key (last ks) = ik_user_key e \<and> ik_sequence (last ks) \<le> ss"
    by (meson order_trans)
qed


lemma handle_key_step:
  assumes parse: "ParseInternalKey cs key (ikey w) = (True, e)"
    and inv: "walk_inv A ks w"
    and s: "sorted_wrt InternalKeyComparator_less (ks @ e # rs)"
    and nomax: "\<forall>k\<in>set ks. ik_sequence k \<noteq> kMaxSequenceNumber A"
  shows "walk_inv A (ks @ [e]) (fst (handle_key A db cs strat w key))"
    and "ikey (fst (handle_key A db cs strat w key)) = e"
    and "snd (handle_key A db cs strat w key) \<longleftrightarrow> \<not> kept_by_rules db cs strat (ks @ e # rs) e"
proof -
  define ss where "ss = smallest_snapshot cs"
  define AF where "AF \<longleftrightarrow> ks \<noteq> [] \<and> ik_user_key (last ks) = ik_user_key e
      \<and> ik_sequence (last ks) \<le> ss"
  define LX where "LX \<longleftrightarrow> list_ex (\<lambda>k'. ik_user_key k' = ik_user_key e \<and> ik_sequence k' \<le> ss
                        \<and> ik_sequence e < ik_sequence k') (ks @ e # rs)"
  define RB where "RB \<longleftrightarrow> RollbackDrop (ik_sequence e) (rollbacks db)"
  define DEL where "DEL \<longleftrightarrow> ik_type e = kTypeDeletion \<and> drop_base_level_del_in_compaction db
                     \<and> IsBaseLevelForKey cs (ik_user_key e)"
  define SD where "SD \<longleftrightarrow> strategy_drops db cs strat e"
  define w1 where "w1 = (if \<not> has_current_user_key w \<or> ik_user_key e \<noteq> current_user_key w
                  then w\<lparr>ikey := e, current_user_key := ik_user_key e,
                         has_current_user_key := True,
                         last_sequence_for_key := kMaxSequenceNumber A\<rparr>
                  else w\<lparr>ikey := e\<rparr>)"
  have af_lx: "AF \<longleftrightarrow> LX" unfolding AF_def LX_def by (rule rule_A_iff [OF s])
  have lx_le: "LX \<Longrightarrow> ik_sequence e \<le> ss"
    unfolding LX_def list_ex_iff by (meson order_less_imp_le order_less_le_trans)
  define C where "C \<longleftrightarrow> \<not> has_current_user_key w \<or> ik_user_key e \<noteq> current_user_key w"
  define RA where "RA \<longleftrightarrow> \<not> C \<and> last_sequence_for_key w \<le> ss
      \<and> last_sequence_for_key w \<noteq> kMaxSequenceNumber A"
  have ruleA: "RA \<longleftrightarrow> AF"
  proof (cases "ks = []")
    case True
    with inv show ?thesis by (simp add: walk_inv_def RA_def C_def AF_def)
  next
    case False
    then have "last ks \<in> set ks" by simp
    with nomax have "ik_sequence (last ks) \<noteq> kMaxSequenceNumber A" by simp
    with False inv show ?thesis by (auto simp: walk_inv_def RA_def C_def AF_def)
  qed
  have hk: "handle_key A db cs strat w key =
      (w1\<lparr>last_sequence_for_key := ik_sequence e\<rparr>,
       RB \<or> RA \<or> (ik_sequence e \<le> ss \<and> DEL) \<or> (ik_sequence e \<le> ss \<and> SD))"
  proof (cases C)
    case True
    then have c: "\<not> has_current_user_key w \<or> ik_user_key e \<noteq> current_user_key w"
      by (simp add: C_def)
    from True have ra: "\<not> RA" by (simp add: RA_def)
    from c have w1: "w1 = w\<lparr>ikey := e, current_user_key := ik_user_key e,
                         has_current_user_key := True,
                         last_sequence_for_key := kMaxSequenceNumber A\<rparr>"
      unfolding w1_def by (simp only: if_True)
    show ?thesis
      unfolding w1 handle_key_def parse
      using c ra
      by (cases strat)
         (auto simp add: Let_def ss_def RB_def DEL_def SD_def strategy_drops_def)
  next
    case False
    then have c: "\<not> (\<not> has_current_user_key w \<or> ik_user_key e \<noteq> current_user_key w)"
      by (simp add: C_def)
    from False have ra: "RA \<longleftrightarrow> last_sequence_for_key w \<le> ss
      \<and> last_sequence_for_key w \<noteq> kMaxSequenceNumber A" by (simp add: RA_def)
    from c have w1: "w1 = w\<lparr>ikey := e\<rparr>"
      unfolding w1_def by (simp only: if_False)
    show ?thesis
      unfolding w1 handle_key_def parse ra
      using c
      by (cases strat)
         (auto simp add: Let_def ss_def RB_def DEL_def SD_def strategy_drops_def)
  qed
  have kept: "kept_by_rules db cs strat (ks @ e # rs) e
      \<longleftrightarrow> \<not> RB \<and> (ss < ik_sequence e \<or> (ik_sequence e \<le> ss \<and> \<not> LX \<and> \<not> DEL \<and> \<not> SD))"
    by (simp add: kept_by_rules_def first_at_or_below_def ss_def RB_def LX_def DEL_def SD_def)
  show "walk_inv A (ks @ [e]) (fst (handle_key A db cs strat w key))"
    by (simp add: hk walk_inv_def w1_def)
  show "ikey (fst (handle_key A db cs strat w key)) = e"
    by (simp add: hk w1_def)
  show "snd (handle_key A db cs strat w key) \<longleftrightarrow> \<not> kept_by_rules db cs strat (ks @ e # rs) e"
    unfolding kept using af_lx lx_le ruleA by (auto simp: hk)
qed


lemma walk_filter:
  assumes nomerge: "\<And>S xs. strat = Some S \<Longrightarrow> MergeAtomicOPs S xs = None"
  shows "walk_inv A ks w \<Longrightarrow>
     sorted_wrt InternalKeyComparator_less (ks @ map (\<lambda>a. P (fst a)) rest) \<Longrightarrow>
     \<forall>x\<in>set rest. \<forall>old. ParseInternalKey cs (fst x) old = (True, P (fst x)) \<Longrightarrow>
     \<forall>k\<in>set (ks @ map (\<lambda>a. P (fst a)) rest). ik_sequence k \<noteq> kMaxSequenceNumber A \<Longrightarrow>
     \<forall>x\<in>set rest. \<not> reached_end_key cs (fst x) \<Longrightarrow>
     HandleCompactionWork_loop A db cs strat w rest
       = filter (\<lambda>x. kept_by_rules db cs strat (ks @ map (\<lambda>a. P (fst a)) rest) (P (fst x))) rest"
proof (induction rest arbitrary: ks w)
  case Nil
  show ?case by (simp add: HandleCompactionWork_loop.simps)
next
  case (Cons x rest)
  obtain key val where x: "x = (key, val)" by (cases x)
  let ?e = "P key"
  let ?rs = "map (\<lambda>a. P (fst a)) rest"
  let ?hk = "handle_key A db cs strat w key"
  from Cons.prems(3) x have parse: "ParseInternalKey cs key (ikey w) = (True, ?e)" by simp
  from Cons.prems(2) x have s: "sorted_wrt InternalKeyComparator_less (ks @ ?e # ?rs)" by simp
  from Cons.prems(4) have nomax: "\<forall>k\<in>set ks. ik_sequence k \<noteq> kMaxSequenceNumber A" by simp
  note st = handle_key_step [OF parse Cons.prems(1) s nomax, of db strat]
  have keys: "(ks @ [?e]) @ ?rs = ks @ map (\<lambda>a. P (fst a)) (x # rest)" using x by simp
  have ih: "HandleCompactionWork_loop A db cs strat (fst ?hk) rest
       = filter (\<lambda>y. kept_by_rules db cs strat (ks @ map (\<lambda>a. P (fst a)) (x # rest)) (P (fst y))) rest"
  proof -
    have "HandleCompactionWork_loop A db cs strat (fst ?hk) rest
       = filter (\<lambda>y. kept_by_rules db cs strat ((ks @ [?e]) @ ?rs) (P (fst y))) rest"
    proof (rule Cons.IH [OF st(1)])
      show "sorted_wrt InternalKeyComparator_less ((ks @ [?e]) @ ?rs)" using s by simp
      show "\<forall>x\<in>set rest. \<forall>old. ParseInternalKey cs (fst x) old = (True, P (fst x))"
        using Cons.prems(3) by simp
      show "\<forall>k\<in>set ((ks @ [?e]) @ ?rs). ik_sequence k \<noteq> kMaxSequenceNumber A"
        using Cons.prems(4) x by simp
      show "\<forall>x\<in>set rest. \<not> reached_end_key cs (fst x)" using Cons.prems(5) by simp
    qed
    then show ?thesis unfolding keys .
  qed
  from Cons.prems(5) x have noend: "\<not> reached_end_key cs key" by simp
  have merge: "(case strat of
                   Some strategy \<Rightarrow>
                     if ik_sequence (ikey (fst ?hk)) \<le> smallest_snapshot cs
                     then MergeAtomicOPs strategy ((key, val) # rest) else None
                 | None \<Rightarrow> None) = None"
    using nomerge by (cases strat) auto
  have kept: "kept_by_rules db cs strat (ks @ map (\<lambda>a. P (fst a)) (x # rest)) ?e \<longleftrightarrow> \<not> snd ?hk"
    using st(3) x by simp
  show ?case
  proof (cases "snd ?hk")
    case True
    with noend merge ih kept x show ?thesis
      by (simp add: HandleCompactionWork_loop.simps split_beta)
  next
    case False
    with noend merge ih kept x show ?thesis
      by (simp add: HandleCompactionWork_loop.simps split_beta)
  qed
qed


lemmas walk_defs = HandleCompactionWork_def HandleCompactionWork_loop.simps handle_key_def
  RollbackDrop_def sample_cstate_def sample_ParseInternalKey_def sample_parse_def
  sample_input_def

text \<open>
  The claim as stated fails for an entry above \<open>smallest_snapshot\<close> that a rollback window
  covers: with \<open>smallest_snapshot = 5\<close> and the rollback \<open>5 \<mapsto> 10\<close>, the entry with sequence
  7 is dropped.
\<close>

theorem C2_counterexample:
  "HandleCompactionWork sample_absent (sample_db\<lparr>rollbacks := [(5, 10)]\<rparr>) sample_cstate None
      [(''a'' @ [CHR 0x07, CHR 0x01], ''v7'')] = []
   \<and> smallest_snapshot sample_cstate < ik_sequence (sample_parse (''a'' @ [CHR 0x07, CHR 0x01]))"
  by (simp add: walk_defs sample_defs Let_def)

text \<open>
  Claim C2, as amended. Let the input be in internal-key order, every key parse, no sequence
  equal \<open>kMaxSequenceNumber\<close>, the end key not be reached and the strategy (if any) merge no
  atomic operations. Then the entries added to the output are exactly those kept by the rule
  \<open>kept_by_rules\<close>. In particular: every entry with sequence above \<open>smallest_snapshot\<close> that no
  rollback window covers is kept; an entry is dropped if the same user key has a newer entry
  at or below \<open>smallest_snapshot\<close>, so at most the first entry at or below it survives; and
  a deletion at or below \<open>smallest_snapshot\<close> is dropped when
  \<open>drop_base_level_del_in_compaction\<close> is set and the compaction is at the base level for
  its key.
\<close>

theorem C2_compaction_walk:
  assumes nomerge: "\<And>S xs. strat = Some S \<Longrightarrow> MergeAtomicOPs S xs = None"
    and sorted: "sorted_wrt InternalKeyComparator_less (map (\<lambda>a. P (fst a)) input)"
    and parse: "\<forall>x\<in>set input. \<forall>old. ParseInternalKey cs (fst x) old = (True, P (fst x))"
    and nomax: "\<forall>x\<in>set input. ik_sequence (P (fst x)) \<noteq> kMaxSequenceNumber A"
    and noend: "\<forall>x\<in>set input. \<not> reached_end_key cs (fst x)"
  shows "HandleCompactionWork A db cs strat input
       = filter (\<lambda>x. kept_by_rules db cs strat (map (\<lambda>a. P (fst a)) input) (P (fst x))) input
    \<and> (\<forall>x\<in>set input. smallest_snapshot cs < ik_sequence (P (fst x))
          \<and> \<not> RollbackDrop (ik_sequence (P (fst x))) (rollbacks db)
        \<longrightarrow> x \<in> set (HandleCompactionWork A db cs strat input))
    \<and> (\<forall>x\<in>set input. \<forall>y\<in>set input.
          ik_user_key (P (fst y)) = ik_user_key (P (fst x))
          \<and> ik_sequence (P (fst y)) \<le> smallest_snapshot cs
          \<and> ik_sequence (P (fst x)) < ik_sequence (P (fst y))
        \<longrightarrow> x \<notin> set (HandleCompactionWork A db cs strat input))
    \<and> (\<forall>x\<in>set input. ik_type (P (fst x)) = kTypeDeletion
          \<and> ik_sequence (P (fst x)) \<le> smallest_snapshot cs
          \<and> drop_base_level_del_in_compaction db
          \<and> IsBaseLevelForKey cs (ik_user_key (P (fst x)))
        \<longrightarrow> x \<notin> set (HandleCompactionWork A db cs strat input))"
proof -
  let ?keys = "map (\<lambda>a. P (fst a)) input"
  have inv: "walk_inv A []
       \<lparr>ikey = \<lparr>ik_user_key = [], ik_sequence = 0, ik_type = kTypeDeletion\<rparr>,
        current_user_key = [], has_current_user_key = False,
        last_sequence_for_key = kMaxSequenceNumber A\<rparr>"
    by (simp add: walk_inv_def)
  have eq: "HandleCompactionWork A db cs strat input
       = filter (\<lambda>x. kept_by_rules db cs strat ?keys (P (fst x))) input"
    unfolding HandleCompactionWork_def
  proof (rule walk_filter [where ks = "[]" and P = P, unfolded append_Nil])
    show "\<And>S xs. strat = Some S \<Longrightarrow> MergeAtomicOPs S xs = None" by (rule nomerge)
    show "walk_inv A []
       \<lparr>ikey = \<lparr>ik_user_key = [], ik_sequence = 0, ik_type = kTypeDeletion\<rparr>,
        current_user_key = [], has_current_user_key = False,
        last_sequence_for_key = kMaxSequenceNumber A\<rparr>" by (rule inv)
    show "sorted_wrt InternalKeyComparator_less (map (\<lambda>a. P (fst a)) input)" by (rule sorted)
    show "\<forall>x\<in>set input. \<forall>old. ParseInternalKey cs (fst x) old = (True, P (fst x))"
      by (rule parse)
    show "\<forall>k\<in>set (map (\<lambda>a. P (fst a)) input). ik_sequence k \<noteq> kMaxSequenceNumber A"
      using nomax by simp
    show "\<forall>x\<in>set input. \<not> reached_end_key cs (fst x)" by (rule noend)
  qed
  have p1: "\<forall>x\<in>set input. smallest_snapshot cs < ik_sequence (P (fst x))
          \<and> \<not> RollbackDrop (ik_sequence (P (fst x))) (rollbacks db)
        \<longrightarrow> x \<in> set (HandleCompactionWork A db cs strat input)"
    unfolding eq by (simp add: kept_by_rules_def)
  have p2: "\<forall>x\<in>set input. \<forall>y\<in>set input.
          ik_user_key (P (fst y)) = ik_user_key (P (fst x))
          \<and> ik_sequence (P (fst y)) \<le> smallest_snapshot cs
          \<and> ik_sequence (P (fst x)) < ik_sequence (P (fst y))
        \<longrightarrow> x \<notin> set (HandleCompactionWork A db cs strat input)"
  proof (intro ballI impI, elim conjE)
    fix x y assume x: "x \<in> set input" and y: "y \<in> set input"
      and uk: "ik_user_key (P (fst y)) = ik_user_key (P (fst x))"
      and le: "ik_sequence (P (fst y)) \<le> smallest_snapshot cs"
      and lt: "ik_sequence (P (fst x)) < ik_sequence (P (fst y))"
    from y have "P (fst y) \<in> set ?keys" by simp
    with uk le lt have "\<not> first_at_or_below (smallest_snapshot cs) ?keys (P (fst x))"
      unfolding first_at_or_below_def list_ex_iff by blast
    moreover from le lt have "\<not> smallest_snapshot cs < ik_sequence (P (fst x))"
      by (meson order_less_le_trans order_less_asym)
    ultimately show "x \<notin> set (HandleCompactionWork A db cs strat input)"
      unfolding eq by (simp add: kept_by_rules_def)
  qed
  have p3: "\<forall>x\<in>set input. ik_type (P (fst x)) = kTypeDeletion
          \<and> ik_sequence (P (fst x)) \<le> smallest_snapshot cs
          \<and> drop_base_level_del_in_compaction db
          \<and> IsBaseLevelForKey cs (ik_user_key (P (fst x)))
        \<longrightarrow> x \<notin> set (HandleCompactionWork A db cs strat input)"
    unfolding eq by (auto simp add: kept_by_rules_def)
  from eq p1 p2 p3 show ?thesis by blast
qed


theorem C2_compaction_walk_witness:
  "HandleCompactionWork sample_absent sample_db sample_cstate None sample_input
     = [(''a'' @ [CHR 0x07, CHR 0x01], ''v7''), (''a'' @ [CHR 0x04, CHR 0x01], ''v4'')]
   \<and> sorted_wrt InternalKeyComparator_less (map (\<lambda>a. sample_parse (fst a)) sample_input)
   \<and> (''a'' @ [CHR 0x02, CHR 0x01], ''v2'')
       \<notin> set (HandleCompactionWork sample_absent sample_db sample_cstate None sample_input)
   \<and> (''b'' @ [CHR 0x03, CHR 0x00], [])
       \<notin> set (HandleCompactionWork sample_absent sample_db sample_cstate None sample_input)"
proof -
  have nomerge: "\<And>S xs. (None :: CompactStrategy option) = Some S \<Longrightarrow> MergeAtomicOPs S xs = None"
    by simp
  have sorted: "sorted_wrt InternalKeyComparator_less
      (map (\<lambda>a. sample_parse (fst a)) sample_input)"
    by (simp add: sample_input_def sample_parse_def InternalKeyComparator_less_def)
  have parse: "\<forall>x\<in>set sample_input. \<forall>old.
      ParseInternalKey sample_cstate (fst x) old = (True, sample_parse (fst x))"
    by (simp add: sample_input_def sample_cstate_def sample_ParseInternalKey_def)
  have nomax: "\<forall>x\<in>set sample_input.
      ik_sequence (sample_parse (fst x)) \<noteq> kMaxSequenceNumber sample_absent"
    by (simp add: sample_input_def sample_parse_def sample_absent_def)
  have noend: "\<forall>x\<in>set sample_input. \<not> reached_end_key sample_cstate (fst x)"
    by (simp add: sample_cstate_def)
  have run: "HandleCompactionWork sample_absent sample_db sample_cstate None sample_input
     = [(''a'' @ [CHR 0x07, CHR 0x01], ''v7''), (''a'' @ [CHR 0x04, CHR 0x01], ''v4'')]"
    by (simp add: walk_defs sample_defs Let_def)
  from C2_compaction_walk [OF nomerge sorted parse nomax noend, where db = sample_db] run sorted
  show ?thesis by simp
qed

subsection \<open>Persistent-cache garbage collection\<close>

lemma gc_keys_result:
  "gc_keys D inh act delayed keys (c, nd, ev) = Some (c', nd', ev') \<Longrightarrow>
     nd' = nd \<union> {k \<in> set keys. gc_candidate D inh act k \<and> k \<notin> delayed}
     \<and> set ev' = set ev \<union> {k \<in> set keys. gc_candidate D inh act k \<and> k \<in> delayed}
     \<and> set c' = set c - {k \<in> set keys. gc_candidate D inh act k \<and> k \<in> delayed}"
proof (induction keys arbitrary: c nd ev)
  case Nil
  then show ?case by simp
next
  case (Cons key keys)
  show ?case
  proof (cases "key \<in> inh")
    case True
    with Cons.prems have "gc_keys D inh act delayed keys (c, nd, ev) = Some (c', nd', ev')"
      by simp
    from Cons.IH [OF this] True show ?thesis by (auto simp: gc_candidate_def)
  next
    case ni: False
    from Cons.prems ni have len: "length (SplitString D key ''/'') > 2"
      by (simp add: Let_def split: if_splits)
    show ?thesis
    proof (cases "tablet_of D key \<in> act")
      case True
      with Cons.prems ni len
      have "gc_keys D inh act delayed keys (c, nd, ev) = Some (c', nd', ev')"
        by (simp add: Let_def tablet_of_def)
      from Cons.IH [OF this] True show ?thesis by (auto simp: gc_candidate_def)
    next
      case na: False
      show ?thesis
      proof (cases "key \<in> delayed")
        case True
        with Cons.prems ni len na
        have "gc_keys D inh act delayed keys (ForceEvict key c, nd, ev @ [key])
            = Some (c', nd', ev')"
          by (simp add: Let_def tablet_of_def)
        from Cons.IH [OF this] True ni na show ?thesis
          by (auto simp: gc_candidate_def ForceEvict_def)
      next
        case False
        with Cons.prems ni len na
        have "gc_keys D inh act delayed keys (c, insert key nd, ev) = Some (c', nd', ev')"
          by (simp add: Let_def tablet_of_def)
        from Cons.IH [OF this] False ni na show ?thesis
          by (auto simp: gc_candidate_def)
      qed
    qed
  qed
qed


lemma PersistentCacheGarbageCollect_result:
  assumes "PersistentCacheGarbageCollect D inh act (Some c) delayed
             = Some (Some c', delayed', evicted)"
  shows "delayed' = {k \<in> set c. gc_candidate D inh act k \<and> k \<notin> delayed}"
    and "set evicted = {k \<in> set c. gc_candidate D inh act k \<and> k \<in> delayed}"
    and "\<exists>c1. c' = Cache_GarbageCollect D c1
           \<and> set c1 = set c - {k \<in> set c. gc_candidate D inh act k \<and> k \<in> delayed}"
proof -
  from assms obtain c1 where
    g: "gc_keys D inh act delayed c (c, {}, []) = Some (c1, delayed', evicted)"
    and c': "c' = Cache_GarbageCollect D c1"
    by (auto simp: PersistentCacheGarbageCollect_def GetAllKeys_def split: option.splits)
  note r = gc_keys_result [OF g]
  from r show "delayed' = {k \<in> set c. gc_candidate D inh act k \<and> k \<notin> delayed}" by simp
  from r show "set evicted = {k \<in> set c. gc_candidate D inh act k \<and> k \<in> delayed}" by simp
  from r c' show "\<exists>c1. c' = Cache_GarbageCollect D c1
           \<and> set c1 = set c - {k \<in> set c. gc_candidate D inh act k \<and> k \<in> delayed}"
    by blast
qed

text \<open>
  Claim C8. Take two consecutive garbage-collection cycles, the second starting from the
  delayed-gc list that the first left behind, and let the cache's own \<open>GarbageCollect\<close> add
  no keys. Every key force-evicted in the second cycle is on that list, is neither an
  inherited live file nor of an active tablet, and was put on the list by the first cycle,
  where it was a candidate for the first time and was not evicted. A candidate key that is not on the
  list is only added to the new list and not evicted. After the cycle every key still in the
  cache is an inherited live file, belongs to an active tablet, or is on the new list.
\<close>

theorem C8_persistent_cache_gc:
  assumes prev: "PersistentCacheGarbageCollect D inh0 act0 (Some c0) delayed0
             = Some (Some c0', delayed, evicted0)"
    and run: "PersistentCacheGarbageCollect D inh act (Some c) delayed
             = Some (Some c', delayed', evicted)"
    and gc: "\<forall>x. set (Cache_GarbageCollect D x) \<subseteq> set x"
  shows "(\<forall>k\<in>set evicted. k \<in> delayed \<and> k \<notin> inh \<and> tablet_of D k \<notin> act
            \<and> k \<in> set c0 \<and> k \<notin> inh0 \<and> tablet_of D k \<notin> act0 \<and> k \<notin> delayed0
            \<and> k \<notin> set evicted0)
    \<and> (\<forall>k\<in>set c. k \<notin> inh \<and> tablet_of D k \<notin> act \<and> k \<notin> delayed
            \<longrightarrow> k \<in> delayed' \<and> k \<notin> set evicted)
    \<and> (\<forall>k\<in>set c'. k \<in> inh \<or> tablet_of D k \<in> act \<or> k \<in> delayed')"
proof -
  note p = PersistentCacheGarbageCollect_result [OF prev]
  note r = PersistentCacheGarbageCollect_result [OF run]
  have a: "\<forall>k\<in>set evicted. k \<in> delayed \<and> k \<notin> inh \<and> tablet_of D k \<notin> act
            \<and> k \<in> set c0 \<and> k \<notin> inh0 \<and> tablet_of D k \<notin> act0 \<and> k \<notin> delayed0
            \<and> k \<notin> set evicted0"
    using p(1) p(2) r(2) by (auto simp: gc_candidate_def)
  have b: "\<forall>k\<in>set c. k \<notin> inh \<and> tablet_of D k \<notin> act \<and> k \<notin> delayed
            \<longrightarrow> k \<in> delayed' \<and> k \<notin> set evicted"
    using r(1) r(2) by (auto simp: gc_candidate_def)
  from r(3) obtain c1 where c1: "c' = Cache_GarbageCollect D c1"
    "set c1 = set c - {k \<in> set c. gc_candidate D inh act k \<and> k \<in> delayed}" by blast
  from gc c1(1) have "set c' \<subseteq> set c1" by simp
  with c1(2) r(1) have c: "\<forall>k\<in>set c'. k \<in> inh \<or> tablet_of D k \<in> act \<or> k \<in> delayed'"
    by (auto simp: gc_candidate_def)
  from a b c show ?thesis by blast
qed

lemmas gc_defs = PersistentCacheGarbageCollect_def GetAllKeys_def ForceEvict_def
  sample_gc_deps_def sample_SplitString_def sample_cache_def

theorem C8_persistent_cache_gc_witness:
  "PersistentCacheGarbageCollect sample_gc_deps {''t2/tab9/0/3.sst''} {''t1/tab1''}
       (Some sample_cache) {}
     = Some (Some sample_cache, {''t1/tab2/0/7.sst''}, [])
   \<and> PersistentCacheGarbageCollect sample_gc_deps {''t2/tab9/0/3.sst''} {''t1/tab1''}
       (Some sample_cache) {''t1/tab2/0/7.sst''}
     = Some (Some [''t1/tab1/0/1.sst'', ''t2/tab9/0/3.sst''], {}, [''t1/tab2/0/7.sst''])
   \<and> (\<forall>x. set (Cache_GarbageCollect sample_gc_deps x) \<subseteq> set x)
   \<and> tablet_of sample_gc_deps ''t1/tab2/0/7.sst'' = ''t1/tab2''"
proof -
  have prev: "PersistentCacheGarbageCollect sample_gc_deps {''t2/tab9/0/3.sst''} {''t1/tab1''}
       (Some sample_cache) {}
     = Some (Some sample_cache, {''t1/tab2/0/7.sst''}, [])"
    by (simp add: gc_defs)
  have run: "PersistentCacheGarbageCollect sample_gc_deps {''t2/tab9/0/3.sst''} {''t1/tab1''}
       (Some sample_cache) {''t1/tab2/0/7.sst''}
     = Some (Some [''t1/tab1/0/1.sst'', ''t2/tab9/0/3.sst''], {}, [''t1/tab2/0/7.sst''])"
    by (simp add: gc_defs)
  have gc: "\<forall>x. set (Cache_GarbageCollect sample_gc_deps x) \<subseteq> set x"
    by (simp add: sample_gc_deps_def)
  from C8_persistent_cache_gc [OF prev run gc] prev run gc show ?thesis
    by (simp add: tablet_of_def sample_gc_deps_def sample_SplitString_def)
qed

subsection \<open>Loading a tablet\<close>

lemma take_eq_iff_starts_with:
  "take (length sid) s = sid \<longleftrightarrow> (\<exists>rest. s = sid @ rest)"
proof
  assume "take (length sid) s = sid"
  then have "s = sid @ drop (length sid) s" by (metis append_take_drop_id)
  then show "\<exists>rest. s = sid @ rest" ..
next
  assume "\<exists>rest. s = sid @ rest"
  then show "take (length sid) s = sid" by auto
qed

text \<open>
  Claim C4. A \<open>LoadTablet\<close> request whose session id is absent, or does not start with the
  server's session id, or whose schema has no locality group, is answered with
  \<open>kIllegalAccess\<close> (and the request's sequence id), and the server, with its tablet
  manager, is exactly as before.
\<close>

theorem C4_LoadTablet_rejects:
  assumes "rq_session_id request = None
           \<or> \<not> (\<exists>rest. session_id request = ts_session_id ts @ rest)
           \<or> rq_locality_groups request = []"
  shows "LoadTablet D ts request response
           = Some (ts, response\<lparr>rs_sequence_id := Some (rq_sequence_id request),
                                rs_status := Some kIllegalAccess\<rparr>)"
  using assms
  by (auto simp: LoadTablet_def Let_def take_eq_iff_starts_with)

theorem C4_LoadTablet_rejects_witness:
  "\<not> (\<exists>rest. session_id sample_request = ts_session_id sample_server @ rest)
   \<and> LoadTablet sample_tablet_deps sample_server sample_request sample_response
       = Some (sample_server, \<lparr>rs_sequence_id = Some 9, rs_status = Some kIllegalAccess,
                                rs_detail_fail_msg = None\<rparr>)
   \<and> LoadTablet sample_tablet_deps sample_server
         (sample_request\<lparr>rq_session_id := Some ''ts-2#master-8''\<rparr>) sample_response
       = Some (\<lparr>ts_session_id = ''ts-2'', ts_tablet_manager = [''t1/tablet00000001'']\<rparr>,
               \<lparr>rs_sequence_id = Some 9, rs_status = Some kTabletNodeOk,
                rs_detail_fail_msg = None\<rparr>)"
proof -
  have stale: "\<not> (\<exists>rest. session_id sample_request = ts_session_id sample_server @ rest)"
    by (simp add: session_id_def sample_request_def sample_server_def)
  then have h: "rq_session_id sample_request = None
           \<or> \<not> (\<exists>rest. session_id sample_request = ts_session_id sample_server @ rest)
           \<or> rq_locality_groups sample_request = []" by simp
  have good: "LoadTablet sample_tablet_deps sample_server
         (sample_request\<lparr>rq_session_id := Some ''ts-2#master-8''\<rparr>) sample_response
       = Some (\<lparr>ts_session_id = ''ts-2'', ts_tablet_manager = [''t1/tablet00000001'']\<rparr>,
               \<lparr>rs_sequence_id = Some 9, rs_status = Some kTabletNodeOk,
                rs_detail_fail_msg = None\<rparr>)"
    by (simp add: LoadTablet_def Let_def session_id_def sample_request_def sample_server_def
        sample_tablet_deps_def sample_response_def)
  from C4_LoadTablet_rejects [OF h, of sample_tablet_deps sample_response] stale good
  show ?thesis by (simp add: sample_request_def sample_response_def)
qed

subsection \<open>The persistent block cache: range reads\<close>

lemmas cache_defs = Read_def run_block_def queue_block_def GetDataBlock_def ReleaseBlock_def
  ReleaseDataBlock_def wait_cache_read_def wait_dfs_read_def wait_cache_fill_def
  HandleCacheRead_def HandleDfsRead_def HandleCacheWrite_def ReadCache_def FillCache_def
  LogRecord_def store_bytes_def request_status_def fill_user_mem_def Test_def Clear_def
  Set_state_def kCacheBlockValid_def kCacheBlockLocked_def kCacheBlockDfsRead_def
  kCacheBlockCacheRead_def kCacheBlockCacheFill_def ok_def Let_def
  sample_cache_deps_def sample_block_def failing_dfs_deps_def block_of_other_reader_def
  racing_deps_def

text \<open>
  On the sample cache a read of bytes 2 to 6 takes block 0 from the SSD and block 1 from the
  DFS and returns them assembled.
\<close>

lemma Read_sample:
  "map_option (\<lambda>r. (fst r, fst (snd r))) (Read sample_cache_deps 4 7 2 5) = Some (OK, ''cdefg'')"
  by (simp add: cache_defs upt_rec)

text \<open>
  A read that ends with the file: the DFS read of the block behind the last one is short
  (here empty), the buffer of that block keeps its size, and the read returns its four bytes.
\<close>

lemma Read_sample_end_of_file:
  "map_option (\<lambda>r. (fst r, fst (snd r))) (Read sample_cache_deps 4 7 8 4) = Some (OK, ''ijkl'')"
  by (simp add: cache_defs upt_rec)

text \<open>
  Claim C7 on the racing cache. The read of bytes 4 to 6 needs block 1 only and finds it
  locked by the other reader, whose DFS read of the block then ends with an I/O error. The
  waiting loop for locked blocks looks at no status, so the request does not degrade to the
  direct DFS read (which would report the I/O error): it returns OK, and as data the start of
  the buffer of block 1, which no read has filled.
\<close>

theorem C7_Read_locked_block:
  "map_option (\<lambda>r. (fst r, fst (snd r))) (Read racing_deps 4 7 4 3) = Some (OK, ''???'')
   \<and> fst (queue_block (the (GetDataBlock racing_deps 4 (GetAndAllocBlock racing_deps 7 1))))
       = c_locked
   \<and> cb_s (wait_dfs_read failing_dfs_deps 4 block_of_other_reader) = Err kIOError ''dfs''
   \<and> dfs_Read racing_deps 4 3 = (Err kIOError ''dfs'', [])"
  by (simp add: cache_defs upt_rec)

subsection \<open>Deleting a file from the block cache\<close>


lemma LockAndPut_delete:
  assumes "key \<noteq> []" and "lock_key c key = None" and "db_write_status D key = OK"
  shows "LockAndPut D (kDeleteDBKey key) c = (OK, None, c\<lparr>meta_db := (meta_db c)(key := None)\<rparr>)"
proof -
  have "(lock_key c)(key := None) = lock_key c"
    using assms(2) by (simp add: fun_upd_idem_iff)
  then show ?thesis
    using assms by (simp add: LockAndPut_def PutContentAfterLock_def ok_def)
qed

lemma DS_key_not_FNAME: "DS_key sid idx \<noteq> ''FNAME#'' @ fname"
  by (simp add: DS_key_def)

text \<open>
  C3, the counterexample: the file \<open>t/1.sst\<close> has file id 7 and the cache holds a \<open>DS#\<close> block
  record of file id 7; \<open>DeleteFile\<close> returns OK and the record is still there.
\<close>

theorem C3_counterexample:
  "fst (BlockCacheImpl_DeleteFile sample_block_deps ''t/1.sst'' sample_block_cache) = OK
   \<and> map_option DecodeFixed64 (meta_db sample_block_cache ''FNAME#t/1.sst'') = Some 7
   \<and> map_option DecodeFixed64
        (meta_db (snd (BlockCacheImpl_DeleteFile sample_block_deps ''t/1.sst'' sample_block_cache))
           (DS_key 0 3)) = Some 7"
  by code_simp

text \<open>
  C3, as the code has it: when no other thread holds the key \<open>FNAME#p\<close> and the metadata
  store accepts the deletion, \<open>DeleteFile(p)\<close> returns OK, removes the name-to-id key
  \<open>FNAME#p\<close> and changes nothing else: every other key of the metadata store, and so every
  \<open>DS#\<close> block record, whatever file id it carries, is as it was.
\<close>

theorem C3_DeleteFile:
  assumes "lock_key c (''FNAME#'' @ fname) = None"
    and "db_write_status D (''FNAME#'' @ fname) = OK"
  shows "BlockCacheImpl_DeleteFile D fname c
           = (OK, c\<lparr>meta_db := (meta_db c)(''FNAME#'' @ fname := None)\<rparr>)
         \<and> meta_db (snd (BlockCacheImpl_DeleteFile D fname c)) (''FNAME#'' @ fname) = None
         \<and> meta_db (snd (BlockCacheImpl_DeleteFile D fname c)) (DS_key sid idx)
             = meta_db c (DS_key sid idx)"
proof -
  have "BlockCacheImpl_DeleteFile D fname c
          = (OK, c\<lparr>meta_db := (meta_db c)(''FNAME#'' @ fname := None)\<rparr>)"
    using LockAndPut_delete [of "''FNAME#'' @ fname" c D] assms
    by (simp add: BlockCacheImpl_DeleteFile_def)
  then show ?thesis
    using DS_key_not_FNAME [of sid idx fname] by simp
qed

theorem C3_DeleteFile_witness:
  "lock_key sample_block_cache (''FNAME#'' @ ''t/1.sst'') = None
   \<and> db_write_status sample_block_deps (''FNAME#'' @ ''t/1.sst'') = OK
   \<and> meta_db (snd (BlockCacheImpl_DeleteFile sample_block_deps ''t/1.sst'' sample_block_cache))
        (''FNAME#'' @ ''t/1.sst'') = None
   \<and> meta_db (snd (BlockCacheImpl_DeleteFile sample_block_deps ''t/1.sst'' sample_block_cache))
        (DS_key 0 3) = meta_db sample_block_cache (DS_key 0 3)"
  using C3_DeleteFile [of sample_block_cache "''t/1.sst''" sample_block_deps 0 3]
  by (simp add: sample_block_cache_def sample_block_deps_def DS_key_def)

text \<open>
  \<open>BlockCacheEnv::DeleteFile\<close> of a path that ends in \<open>.sst\<close> does this to the cache that the
  hash of the path selects, and then deletes the file in the DFS.
\<close>

lemma rfind_suffix:
  assumes "fname = stem @ ''.sst''" and "length fname < 2 ^ 64"
  shows "rfind fname ''.sst'' = of_nat (length fname) - 4"
proof -
  have len: "length fname - 4 = length stem"
    using assms(1) by simp
  have "filter (\<lambda>i. take 4 (drop i fname) = ''.sst'') (rev [0..<Suc (length stem)])
          = length stem # filter (\<lambda>i. take 4 (drop i fname) = ''.sst'') (rev [0..<length stem])"
    using assms(1) by simp
  then have "rfind fname ''.sst'' = of_nat (length stem)"
    using assms(1) by (simp add: rfind_def)
  moreover have "(of_nat (length fname) :: 64 word) - 4 = of_nat (length stem)"
    using assms(1) by simp
  ultimately show ?thesis by simp
qed

lemma BlockCacheEnv_DeleteFile_sst:
  assumes "fname = stem @ ''.sst''" and "length fname < 2 ^ 64"
    and "cache_vec env \<noteq> []"
    and "hash = unat (Hash fname) mod length (cache_vec env)"
    and "lock_key (cache_vec env ! hash) (''FNAME#'' @ fname) = None"
    and "db_write_status D (''FNAME#'' @ fname) = OK"
  shows "BlockCacheEnv_DeleteFile D Hash dfs_DeleteFile fname env
           = Some (fst (dfs_DeleteFile fname (dfs_files env)),
                   env\<lparr>cache_vec := (cache_vec env)
                          [hash := (cache_vec env ! hash)
                             \<lparr>meta_db := (meta_db (cache_vec env ! hash))(''FNAME#'' @ fname := None)\<rparr>],
                       dfs_files := snd (dfs_DeleteFile fname (dfs_files env))\<rparr>)"
proof -
  have del: "BlockCacheImpl_DeleteFile D fname (cache_vec env ! hash)
          = (OK, (cache_vec env ! hash)
                   \<lparr>meta_db := (meta_db (cache_vec env ! hash))(''FNAME#'' @ fname := None)\<rparr>)"
    using LockAndPut_delete [of "''FNAME#'' @ fname" "cache_vec env ! hash" D] assms(5,6)
    by (simp add: BlockCacheImpl_DeleteFile_def)
  show ?thesis
    using rfind_suffix [OF assms(1,2)] assms(3) del
    by (simp add: BlockCacheEnv_DeleteFile_def assms(4) [symmetric] split_beta Let_def)
qed

subsection \<open>Reading a key\<close>


lemma find_append:
  "find P (xs @ ys) = (case find P xs of None \<Rightarrow> find P ys | Some x \<Rightarrow> Some x)"
  by (induction xs) simp_all

lemma find_Some_member: "find P xs = Some x \<Longrightarrow> x \<in> set xs \<and> P x"
  by (induction xs) (auto split: if_splits)

lemma first_visible_is_newest:
  assumes s: "sorted_wrt entry_less t" and f: "find (visible lkey rbs) t = Some e0"
    and e: "e \<in> set t" and v: "visible lkey rbs e"
  shows "e = e0 \<or> ik_sequence (fst e) < ik_sequence (fst e0)"
proof -
  from f obtain i where i: "i < length t" "visible lkey rbs (t ! i)" "e0 = t ! i"
    and first: "\<forall>j<i. \<not> visible lkey rbs (t ! j)"
    by (auto simp: find_Some_iff)
  from e obtain j where j: "j < length t" "e = t ! j"
    by (auto simp: in_set_conv_nth)
  from first v j have "i \<le> j" by (metis not_le_imp_less)
  show ?thesis
  proof (cases "i = j")
    case True
    with i j show ?thesis by simp
  next
    case False
    with \<open>i \<le> j\<close> have "i < j" by simp
    with s j(1) have "entry_less (t ! i) (t ! j)"
      by (simp add: sorted_wrt_iff_nth_less)
    moreover from i(2) v j(2) have "ik_user_key (fst (t ! i)) = ik_user_key (fst (t ! j))"
      by (simp add: visible_def)
    ultimately show ?thesis
      using i(3) j(2) by (simp add: entry_less_def InternalKeyComparator_less_def)
  qed
qed

lemma probe_tables_find:
  "probe_tables strategy ts lkey rbs
     = (case find (visible lkey rbs) (concat ts) of
          None \<Rightarrow> (Err kNotFound [], None)
        | Some e \<Rightarrow> entry_answer strategy e)"
  by (induction ts) (simp_all add: table_Get_def find_append split: option.splits)

lemma first_visible_of_tiers:
  assumes "\<forall>t\<in>set ts. sorted_wrt entry_less t" and "sorted_wrt newer_table ts"
    and "find (visible lkey rbs) (concat ts) = Some e0"
    and "e \<in> set (concat ts)" and "visible lkey rbs e"
  shows "e = e0 \<or> ik_sequence (fst e) < ik_sequence (fst e0)"
  using assms
proof (induction ts)
  case Nil
  then show ?case by simp
next
  case (Cons t ts)
  show ?case
  proof (cases "find (visible lkey rbs) t")
    case None
    then have none: "\<forall>x\<in>set t. \<not> visible lkey rbs x"
      by (auto simp: find_None_iff)
    with Cons.prems(4,5) have "e \<in> set (concat ts)" by auto
    moreover from None Cons.prems(3) have "find (visible lkey rbs) (concat ts) = Some e0"
      by (simp add: find_append)
    ultimately show ?thesis
      using Cons.IH Cons.prems(1,2,5) by simp
  next
    case (Some e1)
    with Cons.prems(3) have e1: "e1 = e0" by (simp add: find_append)
    from Some have in_t: "e0 \<in> set t" and v0: "visible lkey rbs e0"
      unfolding e1 by (auto simp: find_Some_iff)
    show ?thesis
    proof (cases "e \<in> set t")
      case True
      with Cons.prems(1,5) Some e1 show ?thesis
        using first_visible_is_newest [of t lkey rbs e0 e] by simp
    next
      case False
      with Cons.prems(4) obtain u where u: "u \<in> set ts" "e \<in> set u" by auto
      with Cons.prems(2) have "newer_table t u" by simp
      with in_t u(2) have "ik_user_key (fst e0) = ik_user_key (fst e)
          \<longrightarrow> ik_sequence (fst e) < ik_sequence (fst e0)"
        by (simp add: newer_table_def list_all_iff)
      with v0 Cons.prems(5) show ?thesis by (simp add: visible_def)
    qed
  qed
qed

lemma DBImpl_Get_find:
  assumes m: "mem db \<noteq> None"
    and sched: "MaybeScheduleCompaction A (pin_tables db) \<noteq> None"
  shows "\<exists>db'. DBImpl_Get A strategy UpdateStats options key db
           = Some (case find (visible \<lparr>lk_user_key = key, lk_sequence = read_snapshot A options db\<rparr>
                                 (ro_rollbacks options)) (concat (tiers db)) of
                     None \<Rightarrow> (Err kNotFound [], None, db')
                   | Some e \<Rightarrow> (fst (entry_answer strategy e), snd (entry_answer strategy e), db'))"
proof -
  let ?lkey = "\<lparr>lk_user_key = key, lk_sequence = read_snapshot A options db\<rparr>"
  let ?P = "visible ?lkey (ro_rollbacks options)"
  from m obtain mt where mt: "mem db = Some mt" by auto
  from sched obtain d where d: "MaybeScheduleCompaction A (pin_tables db) = Some d" by auto
  have snap: "(if ro_snapshot options \<noteq> kMaxSequenceNumber A then Some (ro_snapshot options)
               else GetLastSequence db) = Some (read_snapshot A options db)"
    using mt by (simp add: GetLastSequence_def read_snapshot_def)
  have pin: "mem (pin_tables db) = Some (MemTable_Ref mt)"
    "imm (pin_tables db) = map_option MemTable_Ref (imm db)"
    "versions (pin_tables db) = versions db"
    using mt by (simp_all add: pin_tables_def)
  have get: "\<And>t. MemTable_Get strategy (MemTable_Ref t) ?lkey (ro_rollbacks options)
               = map_option (entry_answer strategy) (find ?P (mt_entries t))"
    by (simp add: MemTable_Get_def table_Get_def MemTable_Ref_def)
  have ver: "Version_Get strategy (versions db) options ?lkey
               = (case find ?P (concat (current (versions db))) of
                    None \<Rightarrow> (Err kNotFound [], None)
                  | Some e \<Rightarrow> entry_answer strategy e)"
    by (simp add: Version_Get_def probe_tables_find)
  have unfold: "DBImpl_Get A strategy UpdateStats options key db
      = (let (answer, have_stat_update) =
               (case map_option (entry_answer strategy) (find ?P (mt_entries mt)) of
                  Some a \<Rightarrow> (a, False)
                | None \<Rightarrow>
                    (case (case imm db of
                             Some i \<Rightarrow> map_option (entry_answer strategy) (find ?P (mt_entries i))
                           | None \<Rightarrow> None) of
                       Some a \<Rightarrow> (a, False)
                     | None \<Rightarrow> (Version_Get strategy (versions db) options ?lkey, True)))
         in Some (fst answer, snd answer,
                  unpin_tables (if have_stat_update \<and> UpdateStats (versions db) ?lkey then d
                                else pin_tables db)))"
    unfolding DBImpl_Get_def snap pin option.case Let_def get
    by (cases "imm db") (simp_all add: d get split: option.split prod.split)
  show ?thesis
  proof (cases "find ?P (mt_entries mt)")
    case (Some e)
    then have "find ?P (concat (tiers db)) = Some e"
      by (simp add: tiers_def mt find_append)
    then show ?thesis
      unfolding unfold by (simp add: Some)
  next
    case None
    note none_mem = None
    show ?thesis
    proof (cases "case imm db of Some i \<Rightarrow> find ?P (mt_entries i) | None \<Rightarrow> None")
      case (Some e)
      then obtain i where i: "imm db = Some i" "find ?P (mt_entries i) = Some e"
        by (cases "imm db") simp_all
      then have "find ?P (concat (tiers db)) = Some e"
        by (simp add: tiers_def mt find_append none_mem)
      then show ?thesis
        unfolding unfold by (simp add: none_mem i)
    next
      case None
      then have imm_none: "(case imm db of
            Some i \<Rightarrow> map_option (entry_answer strategy) (find ?P (mt_entries i))
          | None \<Rightarrow> None) = None"
        by (cases "imm db") simp_all
      from None have "find ?P (concat (tiers db)) = find ?P (concat (current (versions db)))"
        by (cases "imm db") (simp_all add: tiers_def mt find_append none_mem)
      then show ?thesis
        unfolding unfold imm_none
        by (cases "find ?P (concat (current (versions db)))") (simp_all add: none_mem ver)
    qed
  qed
qed

lemmas read_defs = tiers_def visible_def RollbackDrop_def entry_answer_def read_snapshot_def
  sample_read_db_def sample_read_options_def entry_less_def InternalKeyComparator_less_def
  newer_table_def

text \<open>
  C1, the counterexample: the memtable holds \<open>k\<close> at sequences 8 and 5, the version holds it at
  sequence 2, nothing is newer than 8, and the read is at snapshot 10 with the rollback
  \<open>6 \<mapsto> 9\<close>. The highest-sequence entry of \<open>k\<close> at or below the snapshot is the value \<open>v8\<close>;
  \<open>Get\<close> returns \<open>v5\<close>.
\<close>

theorem C1_counterexample:
  "map_option (\<lambda>r. (fst r, fst (snd r)))
       (DBImpl_Get sample_absent None (\<lambda>v l. False) sample_read_options ''k'' sample_read_db)
     = Some (OK, Some ''v5'')
   \<and> (\<lparr>ik_user_key = ''k'', ik_sequence = 8, ik_type = kTypeValue\<rparr>, ''v8'')
       \<in> set (concat (tiers sample_read_db))
   \<and> (8 :: SequenceNumber) \<le> read_snapshot sample_absent sample_read_options sample_read_db
   \<and> list_all (\<lambda>e. ik_sequence (fst e) \<le> 8) (concat (tiers sample_read_db))"
  by (simp add: DBImpl_Get_def pin_tables_def unpin_tables_def MemTable_Get_def table_Get_def
      Version_Get_def read_defs sample_defs Let_def)

text \<open>
  C1, as the code has it. In an engine whose tables are each in internal-key order and hold the
  entries of a key newer the earlier they are probed (memtable, immutable memtable, then the
  tables of the version level by level), \<open>Get\<close> for a key at snapshot \<open>s\<close>, which is the
  engine's last sequence if the caller supplies none, answers with the highest-sequence entry
  of the key that has sequence at most \<open>s\<close> and that no rollback window of the read hides: its
  value, or not-found if it is a deletion or the strategy drops it; and not-found if there is
  no such entry.
\<close>

theorem C1_Get:
  assumes "mem db \<noteq> None"
    and "MaybeScheduleCompaction A (pin_tables db) \<noteq> None"
    and "\<forall>t\<in>set (tiers db). sorted_wrt entry_less t"
    and "sorted_wrt newer_table (tiers db)"
    and "lkey = \<lparr>lk_user_key = key, lk_sequence = read_snapshot A options db\<rparr>"
  shows "(\<not> list_ex (visible lkey (ro_rollbacks options)) (concat (tiers db))
            \<longrightarrow> (\<exists>db'. DBImpl_Get A strategy UpdateStats options key db
                          = Some (Err kNotFound [], None, db')))
         \<and> (\<forall>e\<in>set (concat (tiers db)).
               visible lkey (ro_rollbacks options) e
               \<and> (\<forall>e'\<in>set (concat (tiers db)).
                     visible lkey (ro_rollbacks options) e'
                       \<longrightarrow> ik_sequence (fst e') \<le> ik_sequence (fst e))
               \<longrightarrow> (\<exists>db'. DBImpl_Get A strategy UpdateStats options key db
                             = Some (fst (entry_answer strategy e),
                                     snd (entry_answer strategy e), db')))"
proof -
  let ?P = "visible lkey (ro_rollbacks options)"
  from DBImpl_Get_find [OF assms(1,2), of strategy UpdateStats options key]
  obtain db' where run: "DBImpl_Get A strategy UpdateStats options key db
      = Some (case find ?P (concat (tiers db)) of
                None \<Rightarrow> (Err kNotFound [], None, db')
              | Some e \<Rightarrow> (fst (entry_answer strategy e), snd (entry_answer strategy e), db'))"
    unfolding assms(5) by blast
  have absent: "\<exists>d. DBImpl_Get A strategy UpdateStats options key db
                        = Some (Err kNotFound [], None, d)"
    if "\<not> list_ex ?P (concat (tiers db))"
  proof -
    from that have "find ?P (concat (tiers db)) = None"
      by (auto simp: find_None_iff list_ex_iff)
    with run show ?thesis by simp
  qed
  have present: "\<exists>d. DBImpl_Get A strategy UpdateStats options key db
                         = Some (fst (entry_answer strategy e), snd (entry_answer strategy e), d)"
    if e: "e \<in> set (concat (tiers db))" and v: "?P e"
      and top: "\<forall>e'\<in>set (concat (tiers db)). ?P e' \<longrightarrow> ik_sequence (fst e') \<le> ik_sequence (fst e)"
    for e
  proof -
    from e v have "find ?P (concat (tiers db)) \<noteq> None"
      unfolding find_None_iff by blast
    then obtain e0 where e0: "find ?P (concat (tiers db)) = Some e0" by auto
    then have "e0 \<in> set (concat (tiers db))" and "?P e0"
      using find_Some_member [of ?P "concat (tiers db)" e0] by blast+
    with top have "ik_sequence (fst e0) \<le> ik_sequence (fst e)" by blast
    moreover from first_visible_of_tiers [OF assms(3,4) e0 e v]
    have "e = e0 \<or> ik_sequence (fst e) < ik_sequence (fst e0)" .
    ultimately have "e = e0" by auto
    with run e0 show ?thesis by simp
  qed
  from absent present show ?thesis by blast
qed

theorem C1_Get_witness:
  "mem sample_read_db \<noteq> None
   \<and> MaybeScheduleCompaction sample_absent (pin_tables sample_read_db) \<noteq> None
   \<and> list_all (sorted_wrt entry_less) (tiers sample_read_db)
   \<and> sorted_wrt newer_table (tiers sample_read_db)
   \<and> visible \<lparr>lk_user_key = ''k'', lk_sequence = 10\<rparr> [(6, 9)]
        (\<lparr>ik_user_key = ''k'', ik_sequence = 5, ik_type = kTypeValue\<rparr>, ''v5'')
   \<and> map_option (\<lambda>r. (fst r, fst (snd r)))
        (DBImpl_Get sample_absent None (\<lambda>v l. False) sample_read_options ''k'' sample_read_db)
       = Some (OK, Some ''v5'')"
proof -
  let ?lkey = "\<lparr>lk_user_key = ''k'', lk_sequence = 10\<rparr>"
  let ?e = "(\<lparr>ik_user_key = ''k'', ik_sequence = 5, ik_type = kTypeValue\<rparr>, ''v5'')"
  have m: "mem sample_read_db \<noteq> None"
    by (simp add: sample_read_db_def)
  have sched: "MaybeScheduleCompaction sample_absent (pin_tables sample_read_db) \<noteq> None"
    by (simp add: MaybeScheduleCompaction_def pin_tables_def sample_read_db_def sample_defs
        sort_by_def)
  have sorted: "\<forall>t\<in>set (tiers sample_read_db). sorted_wrt entry_less t"
    by (simp add: read_defs sample_defs)
  have recency: "sorted_wrt newer_table (tiers sample_read_db)"
    by (simp add: read_defs sample_defs)
  have lkey: "?lkey = \<lparr>lk_user_key = ''k'',
      lk_sequence = read_snapshot sample_absent sample_read_options sample_read_db\<rparr>"
    by (simp add: read_defs sample_defs)
  have e: "?e \<in> set (concat (tiers sample_read_db))"
    by (simp add: read_defs sample_defs)
  have v: "visible ?lkey (ro_rollbacks sample_read_options) ?e"
    by (simp add: read_defs)
  have top: "\<forall>e'\<in>set (concat (tiers sample_read_db)).
      visible ?lkey (ro_rollbacks sample_read_options) e' \<longrightarrow> ik_sequence (fst e') \<le> 5"
    by (simp add: read_defs sample_defs)
  from C1_Get [OF m sched sorted recency lkey, of None "\<lambda>v l. False"] e v top
  have "\<exists>db'. DBImpl_Get sample_absent None (\<lambda>v l. False) sample_read_options ''k'' sample_read_db
          = Some (fst (entry_answer None ?e), snd (entry_answer None ?e), db')"
    by (simp add: Ball_def)
  then have "map_option (\<lambda>r. (fst r, fst (snd r)))
        (DBImpl_Get sample_absent None (\<lambda>v l. False) sample_read_options ''k'' sample_read_db)
       = Some (OK, Some ''v5'')"
    by (auto simp: entry_answer_def)
  with m sched sorted recency v show ?thesis
    by (simp add: list_all_iff sample_read_options_def)
qed

end
